theory Spec2Isabelle
  imports Complex_Main "HOL-Library.Sublist"
begin

section \<open>Strings\<close>

text \<open>
  JavaScript strings are modelled as \<^typ>\<open>string\<close>: a list of code units, restricted to
  the range 0..255 of \<^typ>\<open>char\<close>. Mint addresses are base58 text, log lines and error
  messages are ASCII.
\<close>

text \<open>\<^verbatim>\<open>s.includes(t)\<close>: \<open>t\<close> occurs in \<open>s\<close> as a contiguous run.\<close>

fun includes_str :: "string \<Rightarrow> string \<Rightarrow> bool" where
  "includes_str [] t = (t = [])"
| "includes_str (c # s) t = (prefix t (c # s) \<or> includes_str s t)"

text \<open>
  The code units that \<^verbatim>\<open>String.prototype.trim\<close> removes, among the first 256:
  TAB, LF, VT, FF, CR, SPACE and NBSP.
\<close>

definition isWhiteSpace :: "char \<Rightarrow> bool" where
  "isWhiteSpace c = (of_char c \<in> {9, 10, 11, 12, 13, 32, 160 :: nat})"

definition trim :: "string \<Rightarrow> string" where
  "trim s = rev (dropWhile isWhiteSpace (rev (dropWhile isWhiteSpace s)))"

text \<open>
  \<^verbatim>\<open>String.prototype.toLowerCase\<close> on the first 256 code points: A..Z and the Latin-1
  capitals (0xC0..0xDE without the multiplication sign 0xD7) move up by 32.
\<close>

definition toLowerChar :: "char \<Rightarrow> char" where
  "toLowerChar c =
     (let n = (of_char c :: nat)
      in if (65 \<le> n \<and> n \<le> 90) \<or> (192 \<le> n \<and> n \<le> 222 \<and> n \<noteq> 215)
         then char_of (n + 32) else c)"

definition toLowerCase :: "string \<Rightarrow> string" where
  "toLowerCase s = map toLowerChar s"

text \<open>\<^verbatim>\<open>s.endsWith(t)\<close>.\<close>

definition endsWith :: "string \<Rightarrow> string \<Rightarrow> bool" where
  "endsWith s t = suffix t s"

section \<open>JavaScript values\<close>

text \<open>A JavaScript \<^verbatim>\<open>Error\<close> with its message.\<close>

datatype error = Error string

text \<open>A value that \<^verbatim>\<open>JSON.parse\<close> can produce, as the body of an HTTP response is.\<close>

datatype json =
    JNull
  | JBool bool
  | JNumber real
  | JString string
  | JArray "json list"
  | JObject "(string \<times> json) list"

text \<open>
  \<^verbatim>\<open>value?.key\<close> for a key that is neither an index nor a built-in property name:
  \<open>None\<close> is \<^verbatim>\<open>undefined\<close>. Only an object has such a property; of a key that occurs
  twice, \<^verbatim>\<open>JSON.parse\<close> keeps the last value.
\<close>

fun getProp :: "json option \<Rightarrow> string \<Rightarrow> json option" where
  "getProp (Some (JObject kvs)) k = map_of (rev kvs) k"
| "getProp v k = None"

section \<open>Stream-variant mint resolution (index.ts, getMintFromTokenBalances)\<close>

text \<open>An entry of \<^verbatim>\<open>meta.postTokenBalances\<close>; only its \<^verbatim>\<open>mint\<close> is read.\<close>

record TokenBalance =
  mint :: string

text \<open>The \<^verbatim>\<open>for (const balance of tokenBalances)\<close> loop: the first mint that is not WSOL.\<close>

fun firstNonWsol :: "string \<Rightarrow> TokenBalance list \<Rightarrow> string option" where
  "firstNonWsol WSOL_MINT [] = None"
| "firstNonWsol WSOL_MINT (balance # rest) =
     (if mint balance \<noteq> WSOL_MINT then Some (mint balance) else firstNonWsol WSOL_MINT rest)"

fun getMintFromTokenBalances :: "string \<Rightarrow> TokenBalance list \<Rightarrow> string option" where
  "getMintFromTokenBalances WSOL_MINT [b0, b1] =
     (let mint1 = mint b0; mint2 = mint b1
      in if mint1 = WSOL_MINT then (if mint2 = WSOL_MINT then None else Some mint2)
         else if mint2 = WSOL_MINT then Some mint1
         else Some mint1)"
| "getMintFromTokenBalances WSOL_MINT tokenBalances = firstNonWsol WSOL_MINT tokenBalances"

section \<open>The buy action (sniperooHandler, buyToken)\<close>

text \<open>
  \<^verbatim>\<open>error.response\<close>: the HTTP status and the parsed body \<^verbatim>\<open>data\<close>, which may be
  absent.
\<close>

record ErrorResponse =
  status :: int
  data :: "json option"

text \<open>
  What \<^verbatim>\<open>axios.post\<close> throws: an axios error, whose \<^verbatim>\<open>response\<close> is absent
  when no answer arrived, or any other error.
\<close>

datatype thrown = AxiosError "ErrorResponse option" | OtherError string

text \<open>The answer to one POST: \<open>None\<close> for a 2xx response, otherwise what was thrown.\<close>

type_synonym api_reply = "thrown option"

record AutoSell =
  enabled :: bool
  strategyName :: string
  profitPercentage :: real
  stopLossPercentage :: real

record BuyRequest =
  walletAddresses :: "string list"
  tokenAddress :: string
  inputAmount :: real
  autoSell :: AutoSell

text \<open>
  What one call of \<^verbatim>\<open>buyToken\<close> does: the boolean its promise resolves to, or the
  error it is rejected with; the request bodies it posted, in order; and the delays (in
  milliseconds) it waited, in order.
\<close>

record BuyRun =
  result :: "error + bool"
  posts :: "BuyRequest list"
  delays :: "nat list"

definition MAX_RETRIES :: nat where
  "MAX_RETRIES = 3"

definition RETRY_DELAY :: nat where
  "RETRY_DELAY = 200"

text \<open>
  \<^verbatim>\<open>message?.includes(text)\<close>: \<^verbatim>\<open>undefined\<close> (falsy) for a message that is
  absent or null, the substring test for a string, the membership test for an array, and
  a \<^verbatim>\<open>TypeError\<close> for a number, a boolean or an object, which have no method
  \<^verbatim>\<open>includes\<close>.
\<close>

definition messageIncludes :: "json option \<Rightarrow> string \<Rightarrow> error + bool" where
  "messageIncludes msg text =
     (case msg of
        None \<Rightarrow> Inr False
      | Some JNull \<Rightarrow> Inr False
      | Some (JString m) \<Rightarrow> Inr (includes_str m text)
      | Some (JArray xs) \<Rightarrow> Inr (JString text \<in> set xs)
      | Some _ \<Rightarrow> Inl (Error ''TypeError: error.response?.data?.message?.includes is not a function''))"

text \<open>
  The condition of the \<^verbatim>\<open>catch\<close> block, a chain of \<^verbatim>\<open>&&\<close> evaluated from the
  left: whether the error is the one that is retried. The last operand can throw.
\<close>

definition isRetryable :: "thrown \<Rightarrow> error + bool" where
  "isRetryable error =
     (case error of
        OtherError _ \<Rightarrow> Inr False
      | AxiosError None \<Rightarrow> Inr False
      | AxiosError (Some response) \<Rightarrow>
          if status response \<noteq> 400 then Inr False
          else if getProp (data response) ''code_error'' \<noteq> Some (JString ''INTERNAL_SERVER_ERROR'')
          then Inr False
          else messageIncludes (getProp (data response) ''message'')
                 ''Transaction failed due to an unknown reason'')"

text \<open>
  \<^verbatim>\<open>attemptBuyToken(retryCount)\<close>. The closure variables of \<^verbatim>\<open>buyToken\<close> are
  parameters: the wallet key of the environment, the arguments of \<^verbatim>\<open>buyToken\<close>
  (\<^verbatim>\<open>sell\<close> is assigned in the body, so the recursive call takes its new value), and
  \<open>api\<close>, the answer of the trading API to the POST of each attempt. An error thrown
  inside the \<^verbatim>\<open>catch\<close> block rejects the promise.
\<close>

function attemptBuyToken ::
  "string \<Rightarrow> (nat \<Rightarrow> api_reply) \<Rightarrow> string \<Rightarrow> real \<Rightarrow> bool \<Rightarrow> real \<Rightarrow> real \<Rightarrow> nat \<Rightarrow> BuyRun" where
  "attemptBuyToken SNIPEROO_PUBKEY api tokenAddr inputAmt sell tp sl retryCount =
     (if tokenAddr = [] \<or> trim tokenAddr = [] then
        \<lparr>result = Inr False, posts = [], delays = []\<rparr>
      else if inputAmt \<le> 0 then
        \<lparr>result = Inr False, posts = [], delays = []\<rparr>
      else
        let sell' = (if tp = 0 \<or> sl = 0 then False else sell);
            requestBody = \<lparr>walletAddresses = [SNIPEROO_PUBKEY], tokenAddress = tokenAddr,
              inputAmount = inputAmt,
              autoSell = \<lparr>enabled = sell', strategyName = ''simple'',
                profitPercentage = tp, stopLossPercentage = sl\<rparr>\<rparr>
        in case api retryCount of
             None \<Rightarrow> \<lparr>result = Inr True, posts = [requestBody], delays = []\<rparr>
           | Some error \<Rightarrow>
               (case isRetryable error of
                  Inl typeError \<Rightarrow> \<lparr>result = Inl typeError, posts = [requestBody], delays = []\<rparr>
                | Inr retryable \<Rightarrow>
                    if retryable \<and> retryCount < MAX_RETRIES then
                      (let r = attemptBuyToken SNIPEROO_PUBKEY api tokenAddr inputAmt sell' tp sl
                                 (retryCount + 1)
                       in r\<lparr>posts := requestBody # posts r, delays := RETRY_DELAY # delays r\<rparr>)
                    else \<lparr>result = Inr False, posts = [requestBody], delays = []\<rparr>))"
  by pat_completeness auto
termination
  by (relation "measure (\<lambda>(pk, api, a, amt, sell, tp, sl, retryCount). MAX_RETRIES - retryCount)")
     auto

definition buyToken ::
  "string \<Rightarrow> (nat \<Rightarrow> api_reply) \<Rightarrow> string \<Rightarrow> real \<Rightarrow> bool \<Rightarrow> real \<Rightarrow> real \<Rightarrow> BuyRun" where
  "buyToken SNIPEROO_PUBKEY api tokenAddr inputAmt sell tp sl =
     attemptBuyToken SNIPEROO_PUBKEY api tokenAddr inputAmt sell tp sl 0"

text \<open>How a call is settled whose last request got the answer \<open>reply\<close>.\<close>

definition settledBy :: "api_reply \<Rightarrow> error + bool" where
  "settledBy reply =
     (case reply of
        None \<Rightarrow> Inr True
      | Some e \<Rightarrow> (case isRetryable e of Inl typeError \<Rightarrow> Inl typeError | Inr b \<Rightarrow> Inr False))"

text \<open>
  Error replies of the trading API, for the examples below: the one that is retried, and
  one with the same status and code whose \<^verbatim>\<open>message\<close> is a number.
\<close>

definition retryableReply :: thrown where
  "retryableReply =
     AxiosError (Some \<lparr>status = 400,
       data = Some (JObject [(''code_error'', JString ''INTERNAL_SERVER_ERROR''),
         (''message'', JString ''Error: Transaction failed due to an unknown reason.'')])\<rparr>)"

definition numericMessageReply :: thrown where
  "numericMessageReply =
     AxiosError (Some \<lparr>status = 400,
       data = Some (JObject [(''code_error'', JString ''INTERNAL_SERVER_ERROR''),
         (''message'', JNumber 5001)])\<rparr>)"

text \<open>The trading API that gives the same answer to every request.\<close>

definition always :: "api_reply \<Rightarrow> nat \<Rightarrow> api_reply" where
  "always reply k = reply"

section \<open>Check collaborators (tokenHandler)\<close>

record TokenAuthorityStatus =
  hasMintAuthority :: bool
  hasFreezeAuthority :: bool
  isSecure :: bool

text \<open>What \<^verbatim>\<open>getMint\<close> reads from the chain: the two authorities, each possibly null.\<close>

record MintInfo =
  mintAuthority :: "string option"
  freezeAuthority :: "string option"

text \<open>
  \<^verbatim>\<open>TokenCheckManager.getTokenAuthorities\<close>. The parameter \<open>getMint\<close> is the outcome of
  \<^verbatim>\<open>new PublicKey(mintAddress)\<close> followed by the RPC \<^verbatim>\<open>getMint\<close>: an error thrown
  by either, or the mint account. The \<^verbatim>\<open>catch\<close> block logs and throws the error again.
\<close>

definition getTokenAuthorities :: "string \<Rightarrow> error + MintInfo \<Rightarrow> error + TokenAuthorityStatus" where
  "getTokenAuthorities mintAddress getMint =
     (if mintAddress = [] \<or> trim mintAddress = [] then Inl (Error ''Invalid mint address'')
      else case getMint of
             Inl e \<Rightarrow> Inl e
           | Inr mintInfo \<Rightarrow>
               Inr \<lparr>hasMintAuthority = (mintAuthority mintInfo \<noteq> None),
                    hasFreezeAuthority = (freezeAuthority mintInfo \<noteq> None),
                    isSecure = (\<not> (mintAuthority mintInfo \<noteq> None)
                                \<and> \<not> (freezeAuthority mintInfo \<noteq> None))\<rparr>)"

text \<open>
  \<^verbatim>\<open>TokenCheckManager.isQuickRugPull\<close>. \<open>transactions\<close> is the outcome of
  \<^verbatim>\<open>new PublicKey\<close> and \<^verbatim>\<open>getSignaturesForAddress\<close>: an error, or the slots of the
  signatures found, newest first; \<open>getBlockTime\<close> answers for a slot with an error, null
  or a time in seconds; \<open>now\<close> is \<^verbatim>\<open>Date.now()\<close> in milliseconds. Every error is caught
  and gives \<open>False\<close>.
\<close>

definition isQuickRugPull ::
  "string \<Rightarrow> error + int list \<Rightarrow> (int \<Rightarrow> error + int option) \<Rightarrow> int \<Rightarrow> bool" where
  "isQuickRugPull mintAddress transactions getBlockTime now =
     (if mintAddress = [] \<or> trim mintAddress = [] then False
      else case transactions of
             Inl e \<Rightarrow> False
           | Inr txs \<Rightarrow>
               if length txs = 0 then False
               else let oldestTx = txs ! (length txs - 1)
                    in case getBlockTime oldestTx of
                         Inl e \<Rightarrow> False
                       | Inr None \<Rightarrow> False
                       | Inr (Some blockTime) \<Rightarrow>
                           if blockTime = 0 then False
                           else let currentTime = now div 1000
                                in currentTime - blockTime > 60)"

section \<open>Configuration and process state (index.ts)\<close>

record Pool =
  pool_enabled :: bool
  instruction :: string

record Config =
  concurrent_transactions :: int
  checks_mode :: "string option"
  simulation_mode :: bool
  allow_mint_authority :: bool
  allow_freeze_authority :: bool
  ignore_ends_with_pump :: bool
  buy_provider :: string
  wsol_pc_mint :: string
  liquidity_pool :: "Pool list"

definition MAX_CONCURRENT :: "Config \<Rightarrow> int" where
  "MAX_CONCURRENT cfg = concurrent_transactions cfg"

text \<open>\<^verbatim>\<open>config.checks.mode || "full"\<close>: an absent or empty mode is replaced by \<open>full\<close>.\<close>

definition CHECK_MODE :: "Config \<Rightarrow> string" where
  "CHECK_MODE cfg =
     (case checks_mode cfg of None \<Rightarrow> ''full'' | Some m \<Rightarrow> if m = [] then ''full'' else m)"

text \<open>The \<^verbatim>\<open>return\<close> statements of an evaluation, named after what each one logs.\<close>

datatype exit_path =
    NoMint | DuplicateMint | HasMintAuthority | HasFreezeAuthority | DevCheckNotPassed
  | EndsWithPump | RugCheckNotPassed | BuyFailed | Sniped

text \<open>
  Where an evaluation (a call of \<^verbatim>\<open>processWebsocketSignature\<close> or
  \<^verbatim>\<open>processGrpcMint\<close>) stands: suspended at one of its \<^verbatim>\<open>await\<close>s, returned,
  rejected with a thrown error, or, on the socket transport, finalized by the
  \<^verbatim>\<open>.catch(...).finally(...)\<close> handlers.
\<close>

datatype pc =
    AwaitMint string
  | AwaitAuthorities string
  | AwaitQuickRug string
  | AwaitRugCheck string
  | AwaitBuy string
  | Returned exit_path
  | Threw error
  | Finalized

text \<open>What a collaborator answers to the pending call of an evaluation.\<close>

datatype reply =
    FromSignature "error + string option"
  | Authorities "error + TokenAuthorityStatus"
  | QuickRug bool
  | RugCheck "error + bool"
  | Bought "error + bool"

text \<open>
  The module state: the two globals, the evaluations started so far (in order of their
  start), and the mints \<^verbatim>\<open>buyToken\<close> was called with.
\<close>

record State =
  activeTransactions :: int
  CURRENT_MINT :: string
  tasks :: "pc list"
  buyCalls :: "string list"

definition initialState :: State where
  "initialState = \<lparr>activeTransactions = 0, CURRENT_MINT = [], tasks = [], buyCalls = []\<rparr>"

section \<open>The evaluation, between its suspension points\<close>

text \<open>"Perform Swap Transaction": the call of \<^verbatim>\<open>buyToken\<close>, or the end in simulation mode.\<close>

definition performSwap :: "Config \<Rightarrow> string \<Rightarrow> State \<Rightarrow> pc \<times> State" where
  "performSwap cfg returnedMint s =
     (if buy_provider cfg = ''sniperoo'' \<and> \<not> simulation_mode cfg
      then (AwaitBuy returnedMint, s\<lparr>buyCalls := buyCalls s @ [returnedMint]\<rparr>)
      else (Returned Sniped, s))"

text \<open>After \<^verbatim>\<open>await buyToken(...)\<close>.\<close>

definition afterBuy :: "bool \<Rightarrow> State \<Rightarrow> pc \<times> State" where
  "afterBuy res s =
     (if \<not> res then (Returned BuyFailed, s\<lparr>CURRENT_MINT := []\<rparr>) else (Returned Sniped, s))"

text \<open>After \<^verbatim>\<open>await getTokenAuthorities(returnedMint)\<close> in mode \<open>snipe\<close>.\<close>

definition afterAuthorities ::
  "Config \<Rightarrow> string \<Rightarrow> TokenAuthorityStatus \<Rightarrow> State \<Rightarrow> pc \<times> State" where
  "afterAuthorities cfg returnedMint tokenAuthorityStatus s =
     (if \<not> isSecure tokenAuthorityStatus then
        (if \<not> allow_mint_authority cfg \<and> hasMintAuthority tokenAuthorityStatus
         then (Returned HasMintAuthority, s)
         else if \<not> allow_freeze_authority cfg \<and> hasFreezeAuthority tokenAuthorityStatus
         then (Returned HasFreezeAuthority, s)
         else performSwap cfg returnedMint s)
      else performSwap cfg returnedMint s)"

text \<open>The start of the \<open>full\<close> branch: the suffix test, then the call of the rug check.\<close>

definition fullCheck :: "Config \<Rightarrow> string \<Rightarrow> State \<Rightarrow> pc \<times> State" where
  "fullCheck cfg returnedMint s =
     (if endsWith (toLowerCase (trim returnedMint)) ''pump'' \<and> ignore_ends_with_pump cfg
      then (Returned EndsWithPump, s)
      else (AwaitRugCheck returnedMint, s))"

text \<open>The mode dispatch of \<^verbatim>\<open>processWebsocketSignature\<close>: \<open>snipe\<close>, \<open>full\<close>, or nothing.\<close>

definition wssChecks :: "Config \<Rightarrow> string \<Rightarrow> State \<Rightarrow> pc \<times> State" where
  "wssChecks cfg returnedMint s =
     (if CHECK_MODE cfg = ''snipe'' then (AwaitAuthorities returnedMint, s)
      else if CHECK_MODE cfg = ''full'' then fullCheck cfg returnedMint s
      else performSwap cfg returnedMint s)"

text \<open>The mode dispatch of \<^verbatim>\<open>processGrpcMint\<close>: \<open>snipe\<close>, \<open>pumpdump\<close>, \<open>full\<close>, or nothing.\<close>

definition grpcChecks :: "Config \<Rightarrow> string \<Rightarrow> State \<Rightarrow> pc \<times> State" where
  "grpcChecks cfg returnedMint s =
     (if CHECK_MODE cfg = ''snipe'' then (AwaitAuthorities returnedMint, s)
      else if CHECK_MODE cfg = ''pumpdump'' then (AwaitQuickRug returnedMint, s)
      else if CHECK_MODE cfg = ''full'' then fullCheck cfg returnedMint s
      else performSwap cfg returnedMint s)"

text \<open>
  An evaluation resumes when the call it awaits is answered, and runs to its next
  \<^verbatim>\<open>await\<close>, \<^verbatim>\<open>return\<close> or \<^verbatim>\<open>throw\<close>. An answer that is not for the pending call
  leaves everything as it is.
\<close>

fun resumeTask :: "Config \<Rightarrow> pc \<Rightarrow> reply \<Rightarrow> State \<Rightarrow> pc \<times> State" where
  "resumeTask cfg (AwaitMint sg) (FromSignature r) s =
     (case r of
        Inl e \<Rightarrow> (Threw e, s)
      | Inr None \<Rightarrow> (Returned NoMint, s)
      | Inr (Some returnedMint) \<Rightarrow>
          if returnedMint = [] then (Returned NoMint, s)
          else if CURRENT_MINT s = returnedMint then (Returned DuplicateMint, s)
          else wssChecks cfg returnedMint (s\<lparr>CURRENT_MINT := returnedMint\<rparr>))"
| "resumeTask cfg (AwaitAuthorities returnedMint) (Authorities r) s =
     (case r of
        Inl e \<Rightarrow> (Threw e, s)
      | Inr tokenAuthorityStatus \<Rightarrow> afterAuthorities cfg returnedMint tokenAuthorityStatus s)"
| "resumeTask cfg (AwaitQuickRug returnedMint) (QuickRug isDevCheckPassed) s =
     (if \<not> isDevCheckPassed then (Returned DevCheckNotPassed, s)
      else performSwap cfg returnedMint s)"
| "resumeTask cfg (AwaitRugCheck returnedMint) (RugCheck r) s =
     (case r of
        Inl e \<Rightarrow> (Threw e, s)
      | Inr isRugCheckPassed \<Rightarrow>
          if \<not> isRugCheckPassed then (Returned RugCheckNotPassed, s)
          else performSwap cfg returnedMint s)"
| "resumeTask cfg (AwaitBuy returnedMint) (Bought r) s =
     (case r of
        Inl e \<Rightarrow> (Threw e, s)
      | Inr res \<Rightarrow> afterBuy res s)"
| "resumeTask cfg p r s = (p, s)"

text \<open>The answer reaches evaluation \<open>i\<close>.\<close>

definition deliver :: "Config \<Rightarrow> nat \<Rightarrow> reply \<Rightarrow> State \<Rightarrow> State" where
  "deliver cfg i r s =
     (if i < length (tasks s)
      then (case resumeTask cfg (tasks s ! i) r s of
              (p, s') \<Rightarrow> s'\<lparr>tasks := (tasks s')[i := p]\<rparr>)
      else s)"

section \<open>Socket transport (startWebSocketListener)\<close>

text \<open>
  A message after \<^verbatim>\<open>JSON.parse\<close>: whether \<^verbatim>\<open>result\<close> and \<^verbatim>\<open>error\<close> are present,
  \<^verbatim>\<open>params.result.value.logs\<close> when it is an array, and
  \<^verbatim>\<open>params.result.value.signature\<close> when it is a string.
\<close>

record ParsedData =
  has_result :: bool
  has_error :: bool
  logs :: "string list option"
  signature :: "string option"

text \<open>
  The \<^verbatim>\<open>message\<close> handler; \<open>None\<close> is a payload that \<^verbatim>\<open>JSON.parse\<close> rejects (caught and
  logged). The call of \<^verbatim>\<open>processWebsocketSignature\<close> runs to its first \<^verbatim>\<open>await\<close>,
  the signature lookup.
\<close>

definition onMessage :: "Config \<Rightarrow> ParsedData option \<Rightarrow> State \<Rightarrow> State" where
  "onMessage cfg payload s =
     (case payload of
        None \<Rightarrow> s
      | Some parsedData \<Rightarrow>
          if has_result parsedData \<and> \<not> has_error parsedData then s
          else if has_error parsedData then s
          else case (logs parsedData, signature parsedData) of
                 (Some ls, Some sg) \<Rightarrow>
                   if sg = [] then s
                   else
                     let liquidityPoolInstructions =
                           map instruction (filter pool_enabled (liquidity_pool cfg));
                         containsCreate =
                           list_ex (\<lambda>log. list_ex (\<lambda>i. includes_str log i) liquidityPoolInstructions) ls
                     in if \<not> containsCreate then s
                        else if activeTransactions s \<ge> MAX_CONCURRENT cfg then s
                        else s\<lparr>activeTransactions := activeTransactions s + 1,
                               tasks := tasks s @ [AwaitMint sg]\<rparr>
               | _ \<Rightarrow> s)"

text \<open>
  \<^verbatim>\<open>.catch(...).finally(...)\<close> on the promise of evaluation \<open>i\<close>: once it has returned or
  thrown, the error (if any) is logged and the counter is decremented.
\<close>

definition settle :: "nat \<Rightarrow> State \<Rightarrow> State" where
  "settle i s =
     (if i < length (tasks s)
      then (case tasks s ! i of
              Returned x \<Rightarrow> s\<lparr>activeTransactions := activeTransactions s - 1,
                                tasks := (tasks s)[i := Finalized]\<rparr>
            | Threw e \<Rightarrow> s\<lparr>activeTransactions := activeTransactions s - 1,
                             tasks := (tasks s)[i := Finalized]\<rparr>
            | _ \<Rightarrow> s)
      else s)"

datatype wss_event = Message "ParsedData option" | Reply nat reply | Settle nat

fun wssStep :: "Config \<Rightarrow> State \<Rightarrow> wss_event \<Rightarrow> State" where
  "wssStep cfg s (Message payload) = onMessage cfg payload s"
| "wssStep cfg s (Reply i r) = deliver cfg i r s"
| "wssStep cfg s (Settle i) = settle i s"

definition wssRun :: "Config \<Rightarrow> wss_event list \<Rightarrow> State" where
  "wssRun cfg evs = foldl (wssStep cfg) initialState evs"

section \<open>Stream transport (startGrpcListener)\<close>

record Meta =
  logMessages :: "string list option"
  postTokenBalances :: "TokenBalance list option"
  preTokenBalances :: "TokenBalance list option"

text \<open>
  A stream update: whether \<^verbatim>\<open>isSubscribeUpdateTransaction\<close> holds, its filter tags, and
  \<^verbatim>\<open>data.transaction?.transaction?.meta\<close> (\<open>None\<close> when the transaction or its meta is
  missing).
\<close>

record SubscribeUpdate =
  isSubscribeUpdateTransaction :: bool
  filters :: "string list"
  meta :: "Meta option"

text \<open>
  \<^verbatim>\<open>processGrpcMint\<close> up to its first \<^verbatim>\<open>await\<close> or \<^verbatim>\<open>return\<close>; the evaluation is
  entered in \<open>tasks\<close>.
\<close>

definition processGrpcMint :: "Config \<Rightarrow> string \<Rightarrow> State \<Rightarrow> State" where
  "processGrpcMint cfg returnedMint s =
     (if CURRENT_MINT s = returnedMint
      then s\<lparr>tasks := tasks s @ [Returned DuplicateMint]\<rparr>
      else case grpcChecks cfg returnedMint (s\<lparr>CURRENT_MINT := returnedMint\<rparr>) of
             (p, s') \<Rightarrow> s'\<lparr>tasks := tasks s' @ [p]\<rparr>)"

definition processGrpcData :: "Config \<Rightarrow> SubscribeUpdate \<Rightarrow> State \<Rightarrow> State" where
  "processGrpcData cfg update s =
     (if \<not> isSubscribeUpdateTransaction update \<or> ''pumpswap'' \<notin> set (filters update) then s
      else case meta update of
             None \<Rightarrow> s
           | Some m \<Rightarrow>
               if \<not> (case logMessages m of
                        None \<Rightarrow> False
                      | Some ls \<Rightarrow> list_ex (\<lambda>log. includes_str log ''CreatePool'') ls)
               then s
               else case (case postTokenBalances m of
                            Some bs \<Rightarrow> Some bs
                          | None \<Rightarrow> preTokenBalances m) of
                      None \<Rightarrow> s
                    | Some tokenBalances \<Rightarrow>
                        if length tokenBalances = 0 then s
                        else case getMintFromTokenBalances (wsol_pc_mint cfg) tokenBalances of
                               None \<Rightarrow> s
                             | Some tokenMint \<Rightarrow>
                                 if tokenMint = [] then s
                                 else processGrpcMint cfg tokenMint s)"

datatype grpc_event = Data SubscribeUpdate | GrpcReply nat reply

fun grpcStep :: "Config \<Rightarrow> State \<Rightarrow> grpc_event \<Rightarrow> State" where
  "grpcStep cfg s (Data update) = processGrpcData cfg update s"
| "grpcStep cfg s (GrpcReply i r) = deliver cfg i r s"

definition grpcRun :: "Config \<Rightarrow> grpc_event list \<Rightarrow> State" where
  "grpcRun cfg evs = foldl (grpcStep cfg) initialState evs"

text \<open>
  No handler is attached to the promise of \<^verbatim>\<open>processGrpcData\<close>: an evaluation that
  throws is an unhandled rejection.
\<close>

definition grpcUnhandledRejections :: "State \<Rightarrow> error list" where
  "grpcUnhandledRejections s = concat (map (\<lambda>p. case p of Threw e \<Rightarrow> [e] | _ \<Rightarrow> []) (tasks s))"

text \<open>The evaluations that have started and not yet returned or thrown.\<close>

definition pending :: "pc \<Rightarrow> bool" where
  "pending p = (case p of Returned x \<Rightarrow> False | Threw e \<Rightarrow> False | Finalized \<Rightarrow> False | _ \<Rightarrow> True)"

text \<open>The evaluations of the socket transport whose \<^verbatim>\<open>finally\<close> handler has not run yet.\<close>

definition unfinalized :: "pc list \<Rightarrow> nat" where
  "unfinalized ps = length (filter (\<lambda>p. p \<noteq> Finalized) ps)"

text \<open>
  The invariant of the socket transport: the counter counts the evaluations not yet
  finalized and does not exceed the limit.
\<close>

definition counter_inv :: "Config \<Rightarrow> State \<Rightarrow> bool" where
  "counter_inv cfg s =
     (activeTransactions s = int (unfinalized (tasks s)) \<and>
      activeTransactions s \<le> MAX_CONCURRENT cfg)"

subsection \<open>The life of the stream\<close>

datatype stream_event = OnData SubscribeUpdate | OnError error | OnEnd | OnClose

text \<open>
  \<^verbatim>\<open>handleGrpcStates\<close>: the promise is settled by the first \<open>error\<close> (rejected), \<open>end\<close> or
  \<open>close\<close> (resolved) event; \<open>None\<close> while only data has arrived.
\<close>

fun handleGrpcStates :: "stream_event list \<Rightarrow> (error + unit) option" where
  "handleGrpcStates [] = None"
| "handleGrpcStates (OnData update # evs) = handleGrpcStates evs"
| "handleGrpcStates (OnError e # evs) = Some (Inl e)"
| "handleGrpcStates (OnEnd # evs) = Some (Inr ())"
| "handleGrpcStates (OnClose # evs) = Some (Inr ())"

datatype listener_status = Listening | ReturnedAfterError error | ReturnedAfterEnd | Fatal error

text \<open>
  What \<^verbatim>\<open>startGrpcListener\<close> has done: the number of calls of \<^verbatim>\<open>gClient.subscribe()\<close>,
  of subscribe requests written, of calls of \<^verbatim>\<open>end()\<close> on the stream, and how it stands.
\<close>

record ListenerRun =
  subscribeCalls :: nat
  requestsSent :: nat
  endCalls :: nat
  listener :: listener_status

text \<open>
  \<^verbatim>\<open>startGrpcListener\<close>, given the outcome of \<^verbatim>\<open>gClient.subscribe()\<close> (an error it
  throws reaches the \<^verbatim>\<open>catch\<close> at the end of the module, which exits with code 1), the
  outcome of the write of the subscribe request, and the events of the stream.
\<close>

definition startGrpcListener :: "error option \<Rightarrow> error option \<Rightarrow> stream_event list \<Rightarrow> ListenerRun" where
  "startGrpcListener subscribeError writeError evs =
     (case subscribeError of
        Some e \<Rightarrow> \<lparr>subscribeCalls = 1, requestsSent = 0, endCalls = 0, listener = Fatal e\<rparr>
      | None \<Rightarrow>
          (case writeError of
             Some e \<Rightarrow>
               \<lparr>subscribeCalls = 1, requestsSent = 1, endCalls = 1, listener = ReturnedAfterError e\<rparr>
           | None \<Rightarrow>
               (case handleGrpcStates evs of
                  None \<Rightarrow>
                    \<lparr>subscribeCalls = 1, requestsSent = 1, endCalls = 0, listener = Listening\<rparr>
                | Some (Inl e) \<Rightarrow>
                    \<lparr>subscribeCalls = 1, requestsSent = 1, endCalls = 2,
                     listener = ReturnedAfterError e\<rparr>
                | Some (Inr u) \<Rightarrow>
                    \<lparr>subscribeCalls = 1, requestsSent = 1, endCalls = 0,
                     listener = ReturnedAfterEnd\<rparr>)))"

section \<open>Example inputs\<close>

definition exampleConfig :: Config where
  "exampleConfig =
     \<lparr>concurrent_transactions = 2, checks_mode = None, simulation_mode = False,
      allow_mint_authority = False, allow_freeze_authority = False,
      ignore_ends_with_pump = True, buy_provider = ''sniperoo'',
      wsol_pc_mint = ''So11111111111111111111111111111111111111112'',
      liquidity_pool = [\<lparr>pool_enabled = True, instruction = ''initialize2''\<rparr>]\<rparr>"

text \<open>A log notification of the socket transport that announces a new pool.\<close>

definition newPoolMessage :: "string \<Rightarrow> ParsedData option" where
  "newPoolMessage sg =
     Some \<lparr>has_result = False, has_error = False,
           logs = Some [''Program log: initialize2: InitializeInstruction2''],
           signature = Some sg\<rparr>"

text \<open>A transaction update of the stream transport that creates a pool of \<open>m\<close> against WSOL.\<close>

definition createPoolUpdate :: "string \<Rightarrow> SubscribeUpdate" where
  "createPoolUpdate m =
     \<lparr>isSubscribeUpdateTransaction = True, filters = [''pumpswap''],
      meta = Some \<lparr>logMessages = Some [''Program log: Instruction: CreatePool''],
                   postTokenBalances = Some [\<lparr>mint = m\<rparr>,
                     \<lparr>mint = ''So11111111111111111111111111111111111111112''\<rparr>],
                   preTokenBalances = None\<rparr>\<rparr>"

text \<open>
  A well-formed mint address (the base58 text of a 32-byte key; this one is the USDC mint),
  which \<^verbatim>\<open>new PublicKey\<close> accepts.
\<close>

definition exampleMint :: string where
  "exampleMint = ''EPjFWdd5AufqSSqeM2qN1xzybapC8G4wEGGkZwyTDt1v''"

text \<open>An RPC node on which every slot has the block time \<open>t\<close> (in seconds).\<close>

definition blockTimeAt :: "int \<Rightarrow> int \<Rightarrow> error + int option" where
  "blockTimeAt t slot = Inr (Some t)"

section \<open>Properties of the mint resolution\<close>

lemma firstNonWsol_find:
  "firstNonWsol W bs = map_option mint (find (\<lambda>b. mint b \<noteq> W) bs)"
  by (induction bs) simp_all

lemma firstNonWsol_all_base:
  "(\<forall>b \<in> set bs. mint b = W) \<Longrightarrow> firstNonWsol W bs = None"
  by (induction bs) simp_all

lemma getMint_all_base:
  "(\<forall>b \<in> set bs. mint b = W) \<Longrightarrow> getMintFromTokenBalances W bs = None"
proof (cases bs)
  case Nil
  then show ?thesis by simp
next
  case (Cons b0 r)
  assume all: "\<forall>b \<in> set bs. mint b = W"
  show ?thesis
  proof (cases r)
    case Nil
    with Cons all show ?thesis by simp
  next
    case (Cons b1 r')
    note r = this
    show ?thesis
    proof (cases r')
      case Nil
      with \<open>bs = b0 # r\<close> r all show ?thesis by simp
    next
      case (Cons b2 r'')
      with \<open>bs = b0 # r\<close> r all show ?thesis
        using firstNonWsol_all_base [of bs W] by simp
    qed
  qed
qed

lemma getMint_more_than_two:
  "2 < length bs \<Longrightarrow>
   getMintFromTokenBalances W bs = map_option mint (find (\<lambda>b. mint b \<noteq> W) bs)"
proof -
  assume "2 < length bs"
  then obtain b0 b1 b2 r where "bs = b0 # b1 # b2 # r"
    by (cases bs; cases "tl bs"; cases "tl (tl bs)") auto
  then show ?thesis
    using firstNonWsol_find [of W bs] by simp
qed

text \<open>
  Claim C8. The stream-variant mint resolution with base asset \<open>BASE\<close>: on the two balances
  \<open>[A, BASE]\<close> it returns \<open>A\<close>; on \<open>[BASE, BASE]\<close> it returns nothing; on the three balances
  \<open>[BASE, A, B]\<close> it returns \<open>A\<close>, and on any list of more than two balances the first mint
  that differs from \<open>BASE\<close>; when no balance differs from \<open>BASE\<close> it returns nothing.
  Here \<open>A\<close> is an asset other than \<open>BASE\<close>.
\<close>

theorem getMintFromTokenBalances_resolution:
  assumes "A \<noteq> BASE"
  shows "getMintFromTokenBalances BASE [\<lparr>mint = A\<rparr>, \<lparr>mint = BASE\<rparr>] = Some A
    \<and> getMintFromTokenBalances BASE [\<lparr>mint = BASE\<rparr>, \<lparr>mint = BASE\<rparr>] = None
    \<and> getMintFromTokenBalances BASE [\<lparr>mint = BASE\<rparr>, \<lparr>mint = A\<rparr>, \<lparr>mint = B\<rparr>] = Some A
    \<and> (2 < length bs \<longrightarrow>
         getMintFromTokenBalances BASE bs = map_option mint (find (\<lambda>b. mint b \<noteq> BASE) bs))
    \<and> ((\<forall>b \<in> set cs. mint b = BASE) \<longrightarrow> getMintFromTokenBalances BASE cs = None)"
  using assms by (simp add: getMint_more_than_two getMint_all_base)

theorem getMintFromTokenBalances_resolution_witness:
  "getMintFromTokenBalances ''So11'' [\<lparr>mint = ''MintA''\<rparr>, \<lparr>mint = ''So11''\<rparr>] = Some ''MintA''
   \<and> getMintFromTokenBalances ''So11'' [\<lparr>mint = ''So11''\<rparr>, \<lparr>mint = ''So11''\<rparr>] = None
   \<and> getMintFromTokenBalances ''So11''
        [\<lparr>mint = ''So11''\<rparr>, \<lparr>mint = ''MintA''\<rparr>, \<lparr>mint = ''MintB''\<rparr>] = Some ''MintA''
   \<and> getMintFromTokenBalances ''So11''
        [\<lparr>mint = ''So11''\<rparr>, \<lparr>mint = ''So11''\<rparr>, \<lparr>mint = ''MintB''\<rparr>, \<lparr>mint = ''MintA''\<rparr>] = Some ''MintB''
   \<and> getMintFromTokenBalances ''So11'' [\<lparr>mint = ''So11''\<rparr>] = None"
proof -
  have ne: "''MintA'' \<noteq> ''So11''" by simp
  show ?thesis
    using getMintFromTokenBalances_resolution [OF ne, of "''MintB''"
        "[\<lparr>mint = ''So11''\<rparr>, \<lparr>mint = ''So11''\<rparr>, \<lparr>mint = ''MintB''\<rparr>, \<lparr>mint = ''MintA''\<rparr>]"
        "[\<lparr>mint = ''So11''\<rparr>]"]
    by simp
qed

section \<open>Properties of the buy action\<close>

declare attemptBuyToken.simps [simp del]

lemma attempt_posts_nonempty:
  "a \<noteq> [] \<Longrightarrow> trim a \<noteq> [] \<Longrightarrow> 0 < amt \<Longrightarrow>
   posts (attemptBuyToken pk api a amt sell tp sl c) \<noteq> []"
  by (subst attemptBuyToken.simps) (simp add: Let_def split: option.splits sum.splits)

lemma attempt_shape:
  "c \<le> MAX_RETRIES \<Longrightarrow>
   (let r = attemptBuyToken pk api a amt sell tp sl c; n = length (posts r) in
     n + c \<le> MAX_RETRIES + 1 \<and> delays r = replicate (n - 1) RETRY_DELAY \<and>
     (\<forall>k. Suc k < n \<longrightarrow> (\<exists>e. api (c + k) = Some e \<and> isRetryable e = Inr True)) \<and>
     (n = 0 \<longrightarrow> result r = Inr False) \<and>
     (0 < n \<longrightarrow> result r = settledBy (api (c + n - 1))) \<and>
     (0 < n \<longrightarrow>
        (\<forall>e. api (c + n - 1) = Some e \<longrightarrow> isRetryable e = Inr True
           \<longrightarrow> c + n = MAX_RETRIES + 1)))"
proof (induction pk api a amt sell tp sl c rule: attemptBuyToken.induct)
  case (1 pk api a amt sell tp sl c)
  show ?case
  proof (cases "a = [] \<or> trim a = [] \<or> amt \<le> 0")
    case True
    with "1.prems" show ?thesis by (subst attemptBuyToken.simps) auto
  next
    case valid: False
    show ?thesis
    proof (cases "api c")
      case None
      with valid "1.prems" show ?thesis
        by (subst attemptBuyToken.simps) (auto simp: Let_def settledBy_def)
    next
      case (Some e)
      show ?thesis
      proof (cases "isRetryable e")
        case (Inl typeError)
        with valid Some "1.prems" show ?thesis
          by (subst attemptBuyToken.simps) (auto simp: Let_def settledBy_def)
      next
        case (Inr retryable)
        show ?thesis
        proof (cases "retryable \<and> c < MAX_RETRIES")
          case False
          with valid Some Inr "1.prems" show ?thesis
            by (subst attemptBuyToken.simps) (auto simp: Let_def settledBy_def)
        next
          case True
          let ?sell = "if tp = 0 \<or> sl = 0 then False else sell"
          let ?body = "\<lparr>walletAddresses = [pk], tokenAddress = a, inputAmount = amt,
            autoSell = \<lparr>enabled = ?sell, strategyName = ''simple'',
              profitPercentage = tp, stopLossPercentage = sl\<rparr>\<rparr>"
          define r where "r = attemptBuyToken pk api a amt ?sell tp sl (c + 1)"
          define n where "n = length (posts r)"
          have unf: "attemptBuyToken pk api a amt sell tp sl c =
              r\<lparr>posts := ?body # posts r, delays := RETRY_DELAY # delays r\<rparr>"
            using valid Some Inr True unfolding r_def
            by (subst attemptBuyToken.simps) (simp add: Let_def)
          from True have "c + 1 \<le> MAX_RETRIES" by simp
          with "1.IH" [OF _ _ refl refl Some Inr True] valid
          have IH: "n + (c + 1) \<le> MAX_RETRIES + 1"
            "delays r = replicate (n - 1) RETRY_DELAY"
            "\<And>k. Suc k < n \<Longrightarrow> \<exists>e. api ((c + 1) + k) = Some e \<and> isRetryable e = Inr True"
            "0 < n \<Longrightarrow> result r = settledBy (api ((c + 1) + n - 1))"
            "\<And>e. 0 < n \<Longrightarrow> api ((c + 1) + n - 1) = Some e \<Longrightarrow> isRetryable e = Inr True
                  \<Longrightarrow> (c + 1) + n = MAX_RETRIES + 1"
            unfolding r_def n_def Let_def by simp_all
          have pos: "0 < n"
            using valid attempt_posts_nonempty [of a amt pk api ?sell tp sl "c + 1"]
            unfolding r_def n_def by auto
          have earlier: "\<exists>e. api (c + k) = Some e \<and> isRetryable e = Inr True"
            if "Suc k < Suc n" for k
          proof (cases k)
            case 0
            with Some Inr True show ?thesis by simp
          next
            case (Suc j)
            with that IH(3) [of j] show ?thesis by simp
          qed
          have rep: "RETRY_DELAY # replicate (n - Suc 0) RETRY_DELAY = replicate n RETRY_DELAY"
            using pos by (cases n) simp_all
          have idx: "c + Suc n - 1 = (c + 1) + n - 1" by simp
          have len: "length (posts (attemptBuyToken pk api a amt sell tp sl c)) = Suc n"
            by (simp add: unf n_def)
          show ?thesis
            unfolding Let_def len
            using IH(1) IH(2) IH(4) [OF pos] IH(5) [OF pos] pos earlier
            by (simp only: idx) (auto simp: unf rep)
        qed
      qed
    qed
  qed
qed

lemma messageIncludes_throws:
  "(\<exists>t. messageIncludes msg text = Inl t) \<longleftrightarrow>
     (\<exists>b. msg = Some (JBool b)) \<or> (\<exists>x. msg = Some (JNumber x)) \<or> (\<exists>kvs. msg = Some (JObject kvs))"
  by (auto simp: messageIncludes_def split: option.splits json.splits)

lemma isRetryable_throws:
  "(\<exists>t. isRetryable e = Inl t) \<longleftrightarrow>
     (\<exists>response. e = AxiosError (Some response) \<and> status response = 400
        \<and> getProp (data response) ''code_error'' = Some (JString ''INTERNAL_SERVER_ERROR'')
        \<and> ((\<exists>b. getProp (data response) ''message'' = Some (JBool b))
           \<or> (\<exists>x. getProp (data response) ''message'' = Some (JNumber x))
           \<or> (\<exists>kvs. getProp (data response) ''message'' = Some (JObject kvs))))"
proof (cases e)
  case (OtherError x)
  then show ?thesis by (simp add: isRetryable_def)
next
  case (AxiosError r)
  show ?thesis
  proof (cases r)
    case None
    with AxiosError show ?thesis by (simp add: isRetryable_def)
  next
    case (Some response)
    with AxiosError show ?thesis
      using messageIncludes_throws [of "getProp (data response) ''message''"
          "''Transaction failed due to an unknown reason''"]
      by (auto simp: isRetryable_def)
  qed
qed

text \<open>
  The retry policy of the buy action. An attempt is repeated only after a failure that is
  an axios error with status 400, code \<open>INTERNAL_SERVER_ERROR\<close> and a message that
  includes the known text; at most 3 retries are made (at most 4 requests), each after a
  delay of 200 ms. The call resolves to \<open>True\<close> when its last request succeeds and to
  \<open>False\<close> when its last request fails, whether with another error or when the retries
  are used up, unless testing the message of that failure throws: then the call is
  rejected. That happens exactly for a failure with status 400 and code
  \<open>INTERNAL_SERVER_ERROR\<close> whose message is a number, a boolean or an object.
\<close>

theorem buyToken_retry_shape:
  "(let r = buyToken pk api a amt sell tp sl; n = length (posts r) in
     n \<le> MAX_RETRIES + 1 \<and> MAX_RETRIES = 3 \<and> RETRY_DELAY = 200 \<and>
     delays r = replicate (n - 1) RETRY_DELAY \<and>
     (\<forall>k. Suc k < n \<longrightarrow> (\<exists>e. api k = Some e \<and> isRetryable e = Inr True)) \<and>
     (n = 0 \<longrightarrow> result r = Inr False) \<and>
     (0 < n \<longrightarrow> result r = settledBy (api (n - 1))) \<and>
     (0 < n \<longrightarrow> (\<forall>e. api (n - 1) = Some e \<longrightarrow> isRetryable e = Inr True \<longrightarrow> n = MAX_RETRIES + 1)))
   \<and> (isRetryable (AxiosError (Some \<lparr>status = st,
          data = Some (JObject [(''code_error'', JString c), (''message'', JString m)])\<rparr>))
        = Inr (st = 400 \<and> c = ''INTERNAL_SERVER_ERROR''
            \<and> includes_str m ''Transaction failed due to an unknown reason''))
   \<and> isRetryable (AxiosError (Some \<lparr>status = st, data = None\<rparr>)) = Inr False
   \<and> isRetryable (AxiosError None) = Inr False
   \<and> isRetryable (OtherError x) = Inr False
   \<and> ((\<exists>t. isRetryable e = Inl t) \<longleftrightarrow>
       (\<exists>response. e = AxiosError (Some response) \<and> status response = 400
          \<and> getProp (data response) ''code_error'' = Some (JString ''INTERNAL_SERVER_ERROR'')
          \<and> ((\<exists>b. getProp (data response) ''message'' = Some (JBool b))
             \<or> (\<exists>x. getProp (data response) ''message'' = Some (JNumber x))
             \<or> (\<exists>kvs. getProp (data response) ''message'' = Some (JObject kvs)))))"
proof -
  have "0 \<le> MAX_RETRIES" by simp
  from attempt_shape [OF this, of pk api a amt sell tp sl]
  have shape: "(let r = buyToken pk api a amt sell tp sl; n = length (posts r) in
     n \<le> MAX_RETRIES + 1 \<and> MAX_RETRIES = 3 \<and> RETRY_DELAY = 200 \<and>
     delays r = replicate (n - 1) RETRY_DELAY \<and>
     (\<forall>k. Suc k < n \<longrightarrow> (\<exists>e. api k = Some e \<and> isRetryable e = Inr True)) \<and>
     (n = 0 \<longrightarrow> result r = Inr False) \<and>
     (0 < n \<longrightarrow> result r = settledBy (api (n - 1))) \<and>
     (0 < n \<longrightarrow> (\<forall>e. api (n - 1) = Some e \<longrightarrow> isRetryable e = Inr True \<longrightarrow> n = MAX_RETRIES + 1)))"
    unfolding buyToken_def Let_def by (simp add: MAX_RETRIES_def RETRY_DELAY_def)
  have sig: "isRetryable (AxiosError (Some \<lparr>status = st,
          data = Some (JObject [(''code_error'', JString c), (''message'', JString m)])\<rparr>))
        = Inr (st = 400 \<and> c = ''INTERNAL_SERVER_ERROR''
            \<and> includes_str m ''Transaction failed due to an unknown reason'')"
    by (simp add: isRetryable_def messageIncludes_def)
  have rest: "isRetryable (AxiosError (Some \<lparr>status = st, data = None\<rparr>)) = Inr False
     \<and> isRetryable (AxiosError None) = Inr False \<and> isRetryable (OtherError x) = Inr False"
    by (simp add: isRetryable_def)
  show ?thesis
    using shape sig rest isRetryable_throws [of e] by blast
qed

lemmas buy_eval = buyToken_def attemptBuyToken.simps trim_def isWhiteSpace_def
  isRetryable_def messageIncludes_def settledBy_def always_def MAX_RETRIES_def RETRY_DELAY_def
  Let_def

theorem buyToken_retry_shape_witness:
  "(let r = buyToken ''pk'' (always (Some retryableReply)) ''MintX'' 1 True 50 15
    in length (posts r) = 4 \<and> delays r = [200, 200, 200] \<and> result r = Inr False)
   \<and> (let r = buyToken ''pk'' ((always None)(0 := Some retryableReply, 1 := Some (AxiosError None)))
               ''MintX'' 1 True 50 15
      in length (posts r) = 2 \<and> delays r = [200] \<and> result r = Inr False)
   \<and> (let r = buyToken ''pk'' ((always None)(0 := Some retryableReply)) ''MintX'' 1 True 50 15
      in length (posts r) = 2 \<and> delays r = [200] \<and> result r = Inr True)"
  using buyToken_retry_shape [of "''pk''" "always (Some retryableReply)" "''MintX''" 1 True 50 15]
    buyToken_retry_shape [of "''pk''"
      "(always None)(0 := Some retryableReply, 1 := Some (AxiosError None))" "''MintX''" 1 True 50 15]
    buyToken_retry_shape [of "''pk''" "(always None)(0 := Some retryableReply)" "''MintX''"
      1 True 50 15]
  by (simp add: buy_eval retryableReply_def)

text \<open>
  Claim C9, on the code. The trading API answers the first request with status 400 and
  the body \<^verbatim>\<open>{"code_error": "INTERNAL_SERVER_ERROR", "message": 5001}\<close>. Testing the
  message throws a \<^verbatim>\<open>TypeError\<close> inside the \<^verbatim>\<open>catch\<close> block, and the call is
  rejected with it after its one request, where the claim has it end with a false result.
  The same failure with a message that is a string without the known text ends the call
  with \<open>False\<close> after one request.
\<close>

theorem buyToken_rejects_on_numeric_message:
  "buyToken ''pk'' (always (Some numericMessageReply)) exampleMint 1 True 50 15
     = \<lparr>result = Inl (Error ''TypeError: error.response?.data?.message?.includes is not a function''),
        posts = [\<lparr>walletAddresses = [''pk''], tokenAddress = exampleMint, inputAmount = 1,
                  autoSell = \<lparr>enabled = True, strategyName = ''simple'',
                    profitPercentage = 50, stopLossPercentage = 15\<rparr>\<rparr>],
        delays = []\<rparr>
   \<and> buyToken ''pk''
        (always (Some (AxiosError (Some \<lparr>status = 400,
           data = Some (JObject [(''code_error'', JString ''INTERNAL_SERVER_ERROR''),
             (''message'', JString ''Insufficient funds'')])\<rparr>))))
        exampleMint 1 True 50 15
     = \<lparr>result = Inr False,
        posts = [\<lparr>walletAddresses = [''pk''], tokenAddress = exampleMint, inputAmount = 1,
                  autoSell = \<lparr>enabled = True, strategyName = ''simple'',
                    profitPercentage = 50, stopLossPercentage = 15\<rparr>\<rparr>],
        delays = []\<rparr>"
  by (simp add: buy_eval numericMessageReply_def exampleMint_def)

lemma attempt_posts_body:
  "\<forall>q \<in> set (posts (attemptBuyToken pk api a amt sell tp sl c)).
     q = \<lparr>walletAddresses = [pk], tokenAddress = a, inputAmount = amt,
          autoSell = \<lparr>enabled = (sell \<and> tp \<noteq> 0 \<and> sl \<noteq> 0), strategyName = ''simple'',
            profitPercentage = tp, stopLossPercentage = sl\<rparr>\<rparr>"
proof (induction pk api a amt sell tp sl c rule: attemptBuyToken.induct)
  case (1 pk api a amt sell tp sl c)
  show ?case
  proof (cases "a = [] \<or> trim a = [] \<or> amt \<le> 0")
    case True
    then show ?thesis by (subst attemptBuyToken.simps) auto
  next
    case valid: False
    show ?thesis
    proof (cases "api c")
      case None
      with valid show ?thesis
        by (subst attemptBuyToken.simps) (auto simp: Let_def)
    next
      case (Some e)
      show ?thesis
      proof (cases "isRetryable e")
        case (Inl typeError)
        with valid Some show ?thesis
          by (subst attemptBuyToken.simps) (auto simp: Let_def)
      next
        case (Inr retryable)
        show ?thesis
        proof (cases "retryable \<and> c < MAX_RETRIES")
          case False
          with valid Some Inr show ?thesis
            by (subst attemptBuyToken.simps) (auto simp: Let_def)
        next
          case True
          from 1 [OF _ _ refl refl Some Inr True] valid
          have IH: "\<forall>q \<in> set (posts (attemptBuyToken pk api a amt
                       (if tp = 0 \<or> sl = 0 then False else sell) tp sl (c + 1))).
              q = \<lparr>walletAddresses = [pk], tokenAddress = a, inputAmount = amt,
                autoSell = \<lparr>enabled = ((if tp = 0 \<or> sl = 0 then False else sell)
                    \<and> tp \<noteq> 0 \<and> sl \<noteq> 0),
                  strategyName = ''simple'', profitPercentage = tp, stopLossPercentage = sl\<rparr>\<rparr>"
            by simp
          show ?thesis
            using valid Some Inr True IH
            by (subst attemptBuyToken.simps) (auto simp: Let_def)
        qed
      qed
    qed
  qed
qed

lemma attempt_invalid:
  "a = [] \<or> trim a = [] \<or> amt \<le> 0 \<Longrightarrow>
   attemptBuyToken pk api a amt sell tp sl c = \<lparr>result = Inr False, posts = [], delays = []\<rparr>"
  by (subst attemptBuyToken.simps) auto

text \<open>
  Claim C10. When \<open>takeProfit\<close> or \<open>stopLoss\<close> is zero, every request that
  \<open>buyToken\<close> sends has \<open>autoSell.enabled = False\<close>, whatever the sell flag; with an
  empty or whitespace-only token address, or a spend amount that is not positive, the
  call resolves to \<open>False\<close> and sends no request. With a valid address and amount at
  least one request is sent.
\<close>

theorem buyToken_autosell_and_validation:
  "(let r = buyToken pk api a amt sell tp sl in
      ((tp = 0 \<or> sl = 0) \<longrightarrow> (\<forall>q \<in> set (posts r). \<not> enabled (autoSell q)))
    \<and> ((a = [] \<or> trim a = [] \<or> amt \<le> 0) \<longrightarrow> result r = Inr False \<and> posts r = [])
    \<and> (\<not> (a = [] \<or> trim a = [] \<or> amt \<le> 0) \<longrightarrow> posts r \<noteq> []))"
proof -
  have 1: "(tp = 0 \<or> sl = 0) \<longrightarrow>
      (\<forall>q \<in> set (posts (buyToken pk api a amt sell tp sl)). \<not> enabled (autoSell q))"
    using attempt_posts_body [of pk api a amt sell tp sl 0] unfolding buyToken_def by auto
  have 2: "(a = [] \<or> trim a = [] \<or> amt \<le> 0) \<longrightarrow>
      result (buyToken pk api a amt sell tp sl) = Inr False
      \<and> posts (buyToken pk api a amt sell tp sl) = []"
    using attempt_invalid [of a amt pk api sell tp sl 0] unfolding buyToken_def by auto
  have 3: "\<not> (a = [] \<or> trim a = [] \<or> amt \<le> 0) \<longrightarrow>
      posts (buyToken pk api a amt sell tp sl) \<noteq> []"
    using attempt_posts_nonempty [of a amt pk api sell tp sl 0] unfolding buyToken_def by auto
  show ?thesis unfolding Let_def using 1 2 3 by blast
qed

theorem buyToken_autosell_and_validation_witness:
  "(let r = buyToken ''pk'' (always None) ''MintX'' 1 True 0 15
    in map (\<lambda>q. enabled (autoSell q)) (posts r) = [False])
   \<and> (let r = buyToken ''pk'' (always None) ''MintX'' 1 True 50 0
    in map (\<lambda>q. enabled (autoSell q)) (posts r) = [False])
   \<and> (let r = buyToken ''pk'' (always None) [CHR '' '', CHR 0x09] 1 True 50 15
    in result r = Inr False \<and> posts r = [])
   \<and> (let r = buyToken ''pk'' (always None) [] 1 True 50 15
    in result r = Inr False \<and> posts r = [])
   \<and> (let r = buyToken ''pk'' (always None) ''MintX'' 0 True 50 15
    in result r = Inr False \<and> posts r = [])"
  using buyToken_autosell_and_validation [of "''pk''" "always None" "''MintX''" 1 True 0 15]
    buyToken_autosell_and_validation [of "''pk''" "always None" "''MintX''" 1 True 50 0]
    buyToken_autosell_and_validation [of "''pk''" "always None" "[CHR '' '', CHR 0x09]" 1 True 50 15]
    buyToken_autosell_and_validation [of "''pk''" "always None" "[]" 1 True 50 15]
    buyToken_autosell_and_validation [of "''pk''" "always None" "''MintX''" 0 True 50 15]
  by (simp add: buy_eval)

section \<open>Properties of the in-flight counter\<close>

lemmas check_defs = wssChecks_def grpcChecks_def fullCheck_def performSwap_def afterBuy_def
  afterAuthorities_def

lemma resumeTask_frame:
  "resumeTask cfg p r s = (p', s') \<Longrightarrow>
   tasks s' = tasks s \<and> activeTransactions s' = activeTransactions s"
  by (cases "(cfg, p, r, s)" rule: resumeTask.cases)
     (auto simp: check_defs split: if_splits sum.splits option.splits)

lemma resumeTask_Finalized:
  "resumeTask cfg p r s = (p', s') \<Longrightarrow> (p' = Finalized) = (p = Finalized)"
  by (cases "(cfg, p, r, s)" rule: resumeTask.cases)
     (auto simp: check_defs split: if_splits sum.splits option.splits)

lemma filter_length_update:
  "i < length xs \<Longrightarrow> P y = P (xs ! i) \<Longrightarrow>
   length (filter P (xs[i := y])) = length (filter P xs)"
  by (induction xs arbitrary: i) (auto simp: nth_Cons' split: nat.splits if_splits)

lemma filter_length_drop:
  "i < length xs \<Longrightarrow> P (xs ! i) \<Longrightarrow> \<not> P y \<Longrightarrow>
   Suc (length (filter P (xs[i := y]))) = length (filter P xs)"
  by (induction xs arbitrary: i) (auto simp: nth_Cons' filter_length_update split: nat.splits if_splits)

lemma deliver_counter:
  "activeTransactions (deliver cfg i r s) = activeTransactions s"
  by (auto simp: deliver_def split: prod.splits dest: resumeTask_frame)

lemma deliver_unfinalized:
  "unfinalized (tasks (deliver cfg i r s)) = unfinalized (tasks s)"
proof (cases "i < length (tasks s)")
  case False
  then show ?thesis by (simp add: deliver_def)
next
  case True
  obtain p' s' where res: "resumeTask cfg (tasks s ! i) r s = (p', s')"
    by (cases "resumeTask cfg (tasks s ! i) r s")
  from resumeTask_frame [OF res] resumeTask_Finalized [OF res] True res
  show ?thesis
    by (simp add: deliver_def unfinalized_def filter_length_update)
qed

lemma onMessage_cases:
  "onMessage cfg payload s = s \<or>
   (activeTransactions s < MAX_CONCURRENT cfg \<and>
    (\<exists>sg. onMessage cfg payload s =
       s\<lparr>activeTransactions := activeTransactions s + 1, tasks := tasks s @ [AwaitMint sg]\<rparr>))"
  by (auto simp: onMessage_def Let_def split: option.splits)

lemma onMessage_full:
  "MAX_CONCURRENT cfg \<le> activeTransactions s \<Longrightarrow> onMessage cfg payload s = s"
  by (auto simp: onMessage_def Let_def split: option.splits)

lemma settle_cases:
  "settle i s = s \<or>
   (i < length (tasks s) \<and> tasks s ! i \<noteq> Finalized \<and> \<not> pending (tasks s ! i) \<and>
    settle i s = s\<lparr>activeTransactions := activeTransactions s - 1,
                    tasks := (tasks s)[i := Finalized]\<rparr>)"
  by (auto simp: settle_def pending_def split: pc.splits)

lemma wssStep_inv:
  assumes "counter_inv cfg s"
  shows "counter_inv cfg (wssStep cfg s ev)"
proof (cases ev)
  case (Message payload)
  with assms onMessage_cases [of cfg payload s] show ?thesis
    by (auto simp: counter_inv_def unfinalized_def)
next
  case (Reply i r)
  with assms show ?thesis
    by (simp add: counter_inv_def deliver_counter deliver_unfinalized)
next
  case (Settle i)
  from settle_cases [of i s] show ?thesis
  proof
    assume "settle i s = s"
    with assms Settle show ?thesis by simp
  next
    assume a: "i < length (tasks s) \<and> tasks s ! i \<noteq> Finalized \<and> \<not> pending (tasks s ! i) \<and>
      settle i s = s\<lparr>activeTransactions := activeTransactions s - 1,
                    tasks := (tasks s)[i := Finalized]\<rparr>"
    then have "Suc (unfinalized ((tasks s)[i := Finalized])) = unfinalized (tasks s)"
      unfolding unfinalized_def by (intro filter_length_drop) auto
    with a assms Settle show ?thesis
      by (auto simp: counter_inv_def)
  qed
qed

lemma wssRun_snoc: "wssRun cfg (evs @ [ev]) = wssStep cfg (wssRun cfg evs) ev"
  by (simp add: wssRun_def)

lemma wssRun_inv:
  "0 \<le> MAX_CONCURRENT cfg \<Longrightarrow> counter_inv cfg (wssRun cfg evs)"
proof (induction evs rule: rev_induct)
  case Nil
  then show ?case by (simp add: wssRun_def counter_inv_def initialState_def unfinalized_def)
next
  case (snoc ev evs)
  then show ?case by (simp add: wssRun_snoc wssStep_inv)
qed

lemma checks_frame:
  "grpcChecks cfg m s = (p, s') \<Longrightarrow>
   activeTransactions s' = activeTransactions s \<and> tasks s' = tasks s"
  by (auto simp: check_defs split: if_splits)

lemma processGrpcMint_counter:
  "activeTransactions (processGrpcMint cfg m s) = activeTransactions s"
  by (auto simp: processGrpcMint_def split: prod.splits dest: checks_frame)

lemma processGrpcData_counter:
  "activeTransactions (processGrpcData cfg update s) = activeTransactions s"
  by (simp add: processGrpcData_def processGrpcMint_counter split: option.splits)

lemma grpcRun_snoc: "grpcRun cfg (evs @ [ev]) = grpcStep cfg (grpcRun cfg evs) ev"
  by (simp add: grpcRun_def)

lemma grpcStep_counter:
  "activeTransactions (grpcStep cfg s ev) = activeTransactions s"
  by (cases ev) (simp_all add: processGrpcData_counter deliver_counter)

lemma grpcRun_counter: "activeTransactions (grpcRun cfg evs) = 0"
proof (induction evs rule: rev_induct)
  case Nil
  show ?case by (simp add: grpcRun_def initialState_def)
next
  case (snoc ev evs)
  then show ?case by (simp add: grpcRun_snoc grpcStep_counter)
qed

lemma unfinalized_zero:
  "(\<forall>p \<in> set ps. p = Finalized) \<Longrightarrow> unfinalized ps = 0"
  by (induction ps) (simp_all add: unfinalized_def)

lemma settle_done:
  "i < length (tasks s) \<Longrightarrow> tasks s ! i = Returned x \<or> tasks s ! i = Threw e \<Longrightarrow>
   settle i s = s\<lparr>activeTransactions := activeTransactions s - 1,
                  tasks := (tasks s)[i := Finalized]\<rparr>"
  by (auto simp: settle_def)

lemma settle_pending:
  "pending (tasks s ! i) \<or> tasks s ! i = Finalized \<Longrightarrow> settle i s = s"
  by (auto simp: settle_def pending_def split: pc.splits)

lemma deliver_Finalized:
  "tasks s ! i = Finalized \<Longrightarrow> deliver cfg i r s = s"
  by (cases r) (auto simp: deliver_def list_update_same_conv)

text \<open>
  The counter on the socket transport. With a limit that is not negative, in every state that
  a sequence of events reaches: the counter lies in \<open>[0, limit]\<close> and equals the number
  of evaluations started and not yet finalized; a message that arrives while the counter
  is at the limit changes nothing (no evaluation starts); the counter is 0 when every
  evaluation has been finalized. Finalizing an evaluation that has returned or thrown
  decrements the counter by one and marks it finalized; it changes nothing while the
  evaluation is still suspended or once it has been finalized, and a finalized evaluation
  takes no further answer. On the stream transport the counter is never changed.
\<close>

theorem socket_counter_invariant:
  assumes "0 \<le> MAX_CONCURRENT cfg"
  shows "0 \<le> activeTransactions (wssRun cfg evs)
    \<and> activeTransactions (wssRun cfg evs) \<le> MAX_CONCURRENT cfg
    \<and> activeTransactions (wssRun cfg evs) = int (unfinalized (tasks (wssRun cfg evs)))
    \<and> (activeTransactions (wssRun cfg evs) = MAX_CONCURRENT cfg \<longrightarrow>
         onMessage cfg payload (wssRun cfg evs) = wssRun cfg evs)
    \<and> ((\<forall>p \<in> set (tasks (wssRun cfg evs)). p = Finalized) \<longrightarrow>
         activeTransactions (wssRun cfg evs) = 0)
    \<and> (i < length (tasks s) \<and> (tasks s ! i = Returned x \<or> tasks s ! i = Threw e) \<longrightarrow>
         settle i s = s\<lparr>activeTransactions := activeTransactions s - 1,
                        tasks := (tasks s)[i := Finalized]\<rparr>)
    \<and> (pending (tasks s ! i) \<or> tasks s ! i = Finalized \<longrightarrow> settle i s = s)
    \<and> (tasks s ! i = Finalized \<longrightarrow> deliver cfg i r s = s)
    \<and> activeTransactions (grpcRun cfg gevs) = 0"
proof -
  from wssRun_inv [OF assms, of evs]
  have inv: "activeTransactions (wssRun cfg evs) = int (unfinalized (tasks (wssRun cfg evs)))"
    and le: "activeTransactions (wssRun cfg evs) \<le> MAX_CONCURRENT cfg"
    by (simp_all add: counter_inv_def)
  from inv have nonneg: "0 \<le> activeTransactions (wssRun cfg evs)" by simp
  have full: "activeTransactions (wssRun cfg evs) = MAX_CONCURRENT cfg \<longrightarrow>
      onMessage cfg payload (wssRun cfg evs) = wssRun cfg evs"
    by (simp add: onMessage_full)
  have zero: "(\<forall>p \<in> set (tasks (wssRun cfg evs)). p = Finalized) \<longrightarrow>
      activeTransactions (wssRun cfg evs) = 0"
    using inv unfinalized_zero [of "tasks (wssRun cfg evs)"] by simp
  show ?thesis
    using inv le nonneg full zero settle_done [of i s x e] settle_pending [of s i]
      deliver_Finalized [of s i cfg r] grpcRun_counter [of cfg gevs]
    by blast
qed

lemma ex_wss_run:
  "wssRun exampleConfig [Message (newPoolMessage ''sig1''), Message (newPoolMessage ''sig2'')] =
     \<lparr>activeTransactions = 2, CURRENT_MINT = [],
      tasks = [AwaitMint ''sig1'', AwaitMint ''sig2''], buyCalls = []\<rparr>"
  by code_simp

lemma ex_wss_run_done:
  "wssRun exampleConfig [Message (newPoolMessage ''sig1''),
      Reply 0 (FromSignature (Inr None)), Settle 0] =
     \<lparr>activeTransactions = 0, CURRENT_MINT = [], tasks = [Finalized], buyCalls = []\<rparr>"
  by code_simp

theorem socket_counter_invariant_witness:
  "0 \<le> MAX_CONCURRENT exampleConfig
   \<and> activeTransactions (wssRun exampleConfig
        [Message (newPoolMessage ''sig1''), Message (newPoolMessage ''sig2'')]) = 2
   \<and> MAX_CONCURRENT exampleConfig = 2
   \<and> onMessage exampleConfig (newPoolMessage ''sig3'')
        (wssRun exampleConfig [Message (newPoolMessage ''sig1''), Message (newPoolMessage ''sig2'')])
      = wssRun exampleConfig [Message (newPoolMessage ''sig1''), Message (newPoolMessage ''sig2'')]
   \<and> activeTransactions (wssRun exampleConfig [Message (newPoolMessage ''sig1''),
        Reply 0 (FromSignature (Inr None)), Settle 0]) = 0
   \<and> settle 0 \<lparr>activeTransactions = 1, CURRENT_MINT = [], tasks = [Returned NoMint], buyCalls = []\<rparr>
      = \<lparr>activeTransactions = 0, CURRENT_MINT = [], tasks = [Finalized], buyCalls = []\<rparr>
   \<and> settle 0 \<lparr>activeTransactions = 0, CURRENT_MINT = [], tasks = [Finalized], buyCalls = []\<rparr>
      = \<lparr>activeTransactions = 0, CURRENT_MINT = [], tasks = [Finalized], buyCalls = []\<rparr>
   \<and> deliver exampleConfig 0 (Bought (Inr True))
        \<lparr>activeTransactions = 0, CURRENT_MINT = [], tasks = [Finalized], buyCalls = []\<rparr>
      = \<lparr>activeTransactions = 0, CURRENT_MINT = [], tasks = [Finalized], buyCalls = []\<rparr>"
proof -
  have lim: "0 \<le> MAX_CONCURRENT exampleConfig"
    by (simp add: MAX_CONCURRENT_def exampleConfig_def)
  have lim2: "MAX_CONCURRENT exampleConfig = 2"
    by (simp add: MAX_CONCURRENT_def exampleConfig_def)
  show ?thesis
    using lim lim2
      socket_counter_invariant [OF lim,
        where evs = "[Message (newPoolMessage ''sig1''), Message (newPoolMessage ''sig2'')]"
          and payload = "newPoolMessage ''sig3''" and i = 0
          and s = "\<lparr>activeTransactions = 1, CURRENT_MINT = [], tasks = [Returned NoMint],
                    buyCalls = []\<rparr>"
          and x = NoMint and r = "Bought (Inr True)" and gevs = "[]"]
      socket_counter_invariant [OF lim,
        where evs = "[Message (newPoolMessage ''sig1''), Reply 0 (FromSignature (Inr None)),
                      Settle 0]"
          and payload = "newPoolMessage ''sig3''" and i = 0
          and s = "\<lparr>activeTransactions = 0, CURRENT_MINT = [], tasks = [Finalized],
                    buyCalls = []\<rparr>"
          and x = NoMint and r = "Bought (Inr True)" and gevs = "[]"]
    by (simp add: ex_wss_run ex_wss_run_done)
qed

lemma ex_grpc_three:
  "grpcRun exampleConfig [Data (createPoolUpdate ''MintX''), Data (createPoolUpdate ''MintY''),
      Data (createPoolUpdate ''MintZ'')] =
     \<lparr>activeTransactions = 0, CURRENT_MINT = ''MintZ'',
      tasks = [AwaitRugCheck ''MintX'', AwaitRugCheck ''MintY'', AwaitRugCheck ''MintZ''],
      buyCalls = []\<rparr>"
  by code_simp

lemma ex_grpc_limit0:
  "grpcRun (exampleConfig\<lparr>concurrent_transactions := 0\<rparr>) [Data (createPoolUpdate ''MintX'')] =
     \<lparr>activeTransactions = 0, CURRENT_MINT = ''MintX'',
      tasks = [AwaitRugCheck ''MintX''], buyCalls = []\<rparr>"
  by code_simp

text \<open>
  Claim C3, on the code. On the stream transport nothing reads or changes the counter:
  with a limit of 2, three pool creations in a row are all under evaluation at once while
  the counter is 0; with a limit of 0, an update that arrives while the counter equals the
  limit is evaluated all the same.
\<close>

theorem grpc_ignores_concurrency_limit:
  "MAX_CONCURRENT exampleConfig = 2
   \<and> length (filter pending (tasks (grpcRun exampleConfig
        [Data (createPoolUpdate ''MintX''), Data (createPoolUpdate ''MintY''),
         Data (createPoolUpdate ''MintZ'')]))) = 3
   \<and> activeTransactions (grpcRun exampleConfig
        [Data (createPoolUpdate ''MintX''), Data (createPoolUpdate ''MintY''),
         Data (createPoolUpdate ''MintZ'')]) = 0
   \<and> activeTransactions initialState
       = MAX_CONCURRENT (exampleConfig\<lparr>concurrent_transactions := 0\<rparr>)
   \<and> tasks (grpcRun (exampleConfig\<lparr>concurrent_transactions := 0\<rparr>)
        [Data (createPoolUpdate ''MintX'')]) = [AwaitRugCheck ''MintX'']"
proof -
  have "MAX_CONCURRENT exampleConfig = 2"
    and "activeTransactions initialState
       = MAX_CONCURRENT (exampleConfig\<lparr>concurrent_transactions := 0\<rparr>)"
    by (simp_all add: MAX_CONCURRENT_def exampleConfig_def initialState_def)
  then show ?thesis
    by (simp add: ex_grpc_three ex_grpc_limit0 pending_def)
qed

section \<open>Properties of admission\<close>

lemma onMessage_CURRENT_MINT:
  "CURRENT_MINT (onMessage cfg payload s) = CURRENT_MINT s"
  using onMessage_cases [of cfg payload s] by auto

lemma processGrpcMint_duplicate:
  "CURRENT_MINT s = m \<Longrightarrow>
   processGrpcMint cfg m s = s\<lparr>tasks := tasks s @ [Returned DuplicateMint]\<rparr>"
  by (simp add: processGrpcMint_def)

lemma grpcChecks_result:
  "grpcChecks cfg m s = (p, s') \<Longrightarrow>
   CURRENT_MINT s' = CURRENT_MINT s \<and> p \<noteq> Returned DuplicateMint \<and> p \<noteq> Finalized"
  by (auto simp: check_defs split: if_splits)

lemma wssChecks_result:
  "wssChecks cfg m s = (p, s') \<Longrightarrow>
   CURRENT_MINT s' = CURRENT_MINT s \<and> p \<noteq> Returned DuplicateMint \<and> p \<noteq> Finalized"
  by (auto simp: check_defs split: if_splits)

lemma processGrpcMint_admit:
  assumes "CURRENT_MINT s \<noteq> m"
  shows "CURRENT_MINT (processGrpcMint cfg m s) = m
    \<and> length (tasks (processGrpcMint cfg m s)) = Suc (length (tasks s))
    \<and> last (tasks (processGrpcMint cfg m s)) \<noteq> Returned DuplicateMint"
proof -
  obtain p s' where c: "grpcChecks cfg m (s\<lparr>CURRENT_MINT := m\<rparr>) = (p, s')"
    by (cases "grpcChecks cfg m (s\<lparr>CURRENT_MINT := m\<rparr>)")
  from checks_frame [OF c] grpcChecks_result [OF c] assms c show ?thesis
    by (simp add: processGrpcMint_def)
qed

lemma onMessage_admit:
  assumes "\<not> has_result pd" "\<not> has_error pd" "logs pd = Some ls" "signature pd = Some sg"
    and "sg \<noteq> []"
    and "list_ex (\<lambda>log. list_ex (\<lambda>i. includes_str log i)
           (map instruction (filter pool_enabled (liquidity_pool cfg)))) ls"
    and "activeTransactions s < MAX_CONCURRENT cfg"
  shows "onMessage cfg (Some pd) s =
     s\<lparr>activeTransactions := activeTransactions s + 1, tasks := tasks s @ [AwaitMint sg]\<rparr>"
  using assms by (simp add: onMessage_def Let_def)

lemma onMessage_changes:
  assumes "onMessage cfg payload s \<noteq> s"
  shows "\<exists>pd ls sg. payload = Some pd \<and> \<not> has_result pd \<and> \<not> has_error pd
     \<and> logs pd = Some ls \<and> signature pd = Some sg \<and> sg \<noteq> []
     \<and> list_ex (\<lambda>log. list_ex (\<lambda>i. includes_str log i)
           (map instruction (filter pool_enabled (liquidity_pool cfg)))) ls
     \<and> activeTransactions s < MAX_CONCURRENT cfg
     \<and> onMessage cfg payload s =
         s\<lparr>activeTransactions := activeTransactions s + 1, tasks := tasks s @ [AwaitMint sg]\<rparr>"
  using assms by (auto simp: onMessage_def Let_def split: option.splits if_splits)

text \<open>
  Claim C2, as amended. On the socket transport the message handler drops an event when
  the counter is at or above the limit; a pool-creation notification (no result, no
  error, a log line with a watched instruction, a signature) that arrives below the limit
  increments the counter and starts an evaluation awaiting the signature lookup, and
  nothing else changes the state; the last-seen mint is left alone. The evaluation then
  resolves the identifier and returns with the state as it was when the lookup gives
  nothing (null or empty) or fails, returns as a duplicate when the identifier equals the
  last-seen mint, and only otherwise stores it as the last-seen mint and goes on to the
  checks; no answer to an evaluation changes the counter. So the counter has been
  incremented also for an evaluation that is dropped as a duplicate or unresolved, and it
  is decremented by one when that evaluation, having returned or thrown, is finalized.
  On the stream transport the evaluation drops a candidate that equals the last-seen
  mint, and stores any other candidate as the last-seen mint before it goes on to the
  checks.
\<close>

theorem admission_order:
  "(MAX_CONCURRENT cfg \<le> activeTransactions s \<longrightarrow> onMessage cfg payload s = s)
   \<and> (\<not> has_result pd \<and> \<not> has_error pd \<and> logs pd = Some ls \<and> signature pd = Some sg
       \<and> sg \<noteq> []
       \<and> list_ex (\<lambda>log. list_ex (\<lambda>i. includes_str log i)
             (map instruction (filter pool_enabled (liquidity_pool cfg)))) ls
       \<and> activeTransactions s < MAX_CONCURRENT cfg \<longrightarrow>
        onMessage cfg (Some pd) s =
          s\<lparr>activeTransactions := activeTransactions s + 1, tasks := tasks s @ [AwaitMint sg]\<rparr>)
   \<and> (onMessage cfg payload s \<noteq> s \<longrightarrow>
        (\<exists>pd' ls' sg'. payload = Some pd' \<and> \<not> has_result pd' \<and> \<not> has_error pd'
           \<and> logs pd' = Some ls' \<and> signature pd' = Some sg' \<and> sg' \<noteq> []
           \<and> list_ex (\<lambda>log. list_ex (\<lambda>i. includes_str log i)
                 (map instruction (filter pool_enabled (liquidity_pool cfg)))) ls'
           \<and> activeTransactions s < MAX_CONCURRENT cfg
           \<and> onMessage cfg payload s =
               s\<lparr>activeTransactions := activeTransactions s + 1,
                 tasks := tasks s @ [AwaitMint sg']\<rparr>))
   \<and> CURRENT_MINT (onMessage cfg payload s) = CURRENT_MINT s
   \<and> resumeTask cfg (AwaitMint sg) (FromSignature (Inr None)) s = (Returned NoMint, s)
   \<and> resumeTask cfg (AwaitMint sg) (FromSignature (Inr (Some []))) s = (Returned NoMint, s)
   \<and> resumeTask cfg (AwaitMint sg) (FromSignature (Inl e)) s = (Threw e, s)
   \<and> (m \<noteq> [] \<and> CURRENT_MINT s = m \<longrightarrow>
        resumeTask cfg (AwaitMint sg) (FromSignature (Inr (Some m))) s
          = (Returned DuplicateMint, s))
   \<and> (m \<noteq> [] \<and> CURRENT_MINT s \<noteq> m \<longrightarrow>
        resumeTask cfg (AwaitMint sg) (FromSignature (Inr (Some m))) s
          = wssChecks cfg m (s\<lparr>CURRENT_MINT := m\<rparr>)
        \<and> CURRENT_MINT (snd (wssChecks cfg m (s\<lparr>CURRENT_MINT := m\<rparr>))) = m)
   \<and> activeTransactions (deliver cfg i r s) = activeTransactions s
   \<and> (i < length (tasks s) \<and> (tasks s ! i = Returned x \<or> tasks s ! i = Threw e) \<longrightarrow>
        settle i s = s\<lparr>activeTransactions := activeTransactions s - 1,
                       tasks := (tasks s)[i := Finalized]\<rparr>)
   \<and> (CURRENT_MINT s = m \<longrightarrow>
        processGrpcMint cfg m s = s\<lparr>tasks := tasks s @ [Returned DuplicateMint]\<rparr>)
   \<and> (CURRENT_MINT s \<noteq> m \<longrightarrow>
        CURRENT_MINT (processGrpcMint cfg m s) = m
        \<and> length (tasks (processGrpcMint cfg m s)) = Suc (length (tasks s))
        \<and> last (tasks (processGrpcMint cfg m s)) \<noteq> Returned DuplicateMint)"
proof -
  have w: "CURRENT_MINT (snd (wssChecks cfg m (s\<lparr>CURRENT_MINT := m\<rparr>))) = m"
    using wssChecks_result [of cfg m "s\<lparr>CURRENT_MINT := m\<rparr>"]
    by (cases "wssChecks cfg m (s\<lparr>CURRENT_MINT := m\<rparr>)") simp
  have admit: "\<not> has_result pd \<and> \<not> has_error pd \<and> logs pd = Some ls \<and> signature pd = Some sg
       \<and> sg \<noteq> []
       \<and> list_ex (\<lambda>log. list_ex (\<lambda>i. includes_str log i)
             (map instruction (filter pool_enabled (liquidity_pool cfg)))) ls
       \<and> activeTransactions s < MAX_CONCURRENT cfg \<longrightarrow>
        onMessage cfg (Some pd) s =
          s\<lparr>activeTransactions := activeTransactions s + 1, tasks := tasks s @ [AwaitMint sg]\<rparr>"
    using onMessage_admit [of pd ls sg cfg s] by blast
  have only: "onMessage cfg payload s \<noteq> s \<longrightarrow>
        (\<exists>pd' ls' sg'. payload = Some pd' \<and> \<not> has_result pd' \<and> \<not> has_error pd'
           \<and> logs pd' = Some ls' \<and> signature pd' = Some sg' \<and> sg' \<noteq> []
           \<and> list_ex (\<lambda>log. list_ex (\<lambda>i. includes_str log i)
                 (map instruction (filter pool_enabled (liquidity_pool cfg)))) ls'
           \<and> activeTransactions s < MAX_CONCURRENT cfg
           \<and> onMessage cfg payload s =
               s\<lparr>activeTransactions := activeTransactions s + 1,
                 tasks := tasks s @ [AwaitMint sg']\<rparr>)"
    using onMessage_changes [of cfg payload s] by blast
  have fin: "i < length (tasks s) \<and> (tasks s ! i = Returned x \<or> tasks s ! i = Threw e) \<longrightarrow>
        settle i s = s\<lparr>activeTransactions := activeTransactions s - 1,
                       tasks := (tasks s)[i := Finalized]\<rparr>"
    using settle_done [of i s x e] by blast
  have rest: "(MAX_CONCURRENT cfg \<le> activeTransactions s \<longrightarrow> onMessage cfg payload s = s)
     \<and> CURRENT_MINT (onMessage cfg payload s) = CURRENT_MINT s
     \<and> resumeTask cfg (AwaitMint sg) (FromSignature (Inr None)) s = (Returned NoMint, s)
     \<and> resumeTask cfg (AwaitMint sg) (FromSignature (Inr (Some []))) s = (Returned NoMint, s)
     \<and> resumeTask cfg (AwaitMint sg) (FromSignature (Inl e)) s = (Threw e, s)
     \<and> (m \<noteq> [] \<and> CURRENT_MINT s = m \<longrightarrow>
          resumeTask cfg (AwaitMint sg) (FromSignature (Inr (Some m))) s
            = (Returned DuplicateMint, s))
     \<and> (m \<noteq> [] \<and> CURRENT_MINT s \<noteq> m \<longrightarrow>
          resumeTask cfg (AwaitMint sg) (FromSignature (Inr (Some m))) s
            = wssChecks cfg m (s\<lparr>CURRENT_MINT := m\<rparr>)
          \<and> CURRENT_MINT (snd (wssChecks cfg m (s\<lparr>CURRENT_MINT := m\<rparr>))) = m)
     \<and> activeTransactions (deliver cfg i r s) = activeTransactions s
     \<and> (CURRENT_MINT s = m \<longrightarrow>
          processGrpcMint cfg m s = s\<lparr>tasks := tasks s @ [Returned DuplicateMint]\<rparr>)
     \<and> (CURRENT_MINT s \<noteq> m \<longrightarrow>
          CURRENT_MINT (processGrpcMint cfg m s) = m
          \<and> length (tasks (processGrpcMint cfg m s)) = Suc (length (tasks s))
          \<and> last (tasks (processGrpcMint cfg m s)) \<noteq> Returned DuplicateMint)"
    using onMessage_full [of cfg s payload] onMessage_CURRENT_MINT [of cfg payload s] w
      deliver_counter [of cfg i r s] processGrpcMint_duplicate [of s m cfg]
      processGrpcMint_admit [of s m cfg]
    by simp
  show ?thesis
    using admit only fin rest by blast
qed

lemma ex_wss_dup_before:
  "wssRun exampleConfig [Message (newPoolMessage ''sig1''),
      Reply 0 (FromSignature (Inr (Some ''MintX'')))] =
     \<lparr>activeTransactions = 1, CURRENT_MINT = ''MintX'',
      tasks = [AwaitRugCheck ''MintX''], buyCalls = []\<rparr>"
  by code_simp

lemma ex_wss_dup_arrive:
  "wssRun exampleConfig [Message (newPoolMessage ''sig1''),
      Reply 0 (FromSignature (Inr (Some ''MintX''))), Message (newPoolMessage ''sig2'')] =
     \<lparr>activeTransactions = 2, CURRENT_MINT = ''MintX'',
      tasks = [AwaitRugCheck ''MintX'', AwaitMint ''sig2''], buyCalls = []\<rparr>"
  by code_simp

lemma ex_wss_dup_dropped:
  "wssRun exampleConfig [Message (newPoolMessage ''sig1''),
      Reply 0 (FromSignature (Inr (Some ''MintX''))), Message (newPoolMessage ''sig2''),
      Reply 1 (FromSignature (Inr (Some ''MintX'')))] =
     \<lparr>activeTransactions = 2, CURRENT_MINT = ''MintX'',
      tasks = [AwaitRugCheck ''MintX'', Returned DuplicateMint], buyCalls = []\<rparr>"
  by code_simp

lemma ex_wss_unresolved:
  "wssRun exampleConfig [Message (newPoolMessage ''sig1''),
      Reply 0 (FromSignature (Inr None))] =
     \<lparr>activeTransactions = 1, CURRENT_MINT = [], tasks = [Returned NoMint], buyCalls = []\<rparr>"
  by code_simp

theorem admission_order_witness:
  "onMessage exampleConfig (newPoolMessage ''sig2'')
        \<lparr>activeTransactions = 1, CURRENT_MINT = ''MintX'',
         tasks = [AwaitRugCheck ''MintX''], buyCalls = []\<rparr>
      = \<lparr>activeTransactions = 2, CURRENT_MINT = ''MintX'',
         tasks = [AwaitRugCheck ''MintX'', AwaitMint ''sig2''], buyCalls = []\<rparr>
   \<and> onMessage exampleConfig (newPoolMessage ''sig3'')
        \<lparr>activeTransactions = 2, CURRENT_MINT = ''MintX'',
         tasks = [AwaitRugCheck ''MintX'', AwaitMint ''sig2''], buyCalls = []\<rparr>
      = \<lparr>activeTransactions = 2, CURRENT_MINT = ''MintX'',
         tasks = [AwaitRugCheck ''MintX'', AwaitMint ''sig2''], buyCalls = []\<rparr>
   \<and> resumeTask exampleConfig (AwaitMint ''sig2'') (FromSignature (Inr (Some ''MintX'')))
        \<lparr>activeTransactions = 2, CURRENT_MINT = ''MintX'',
         tasks = [AwaitRugCheck ''MintX'', AwaitMint ''sig2''], buyCalls = []\<rparr>
      = (Returned DuplicateMint,
         \<lparr>activeTransactions = 2, CURRENT_MINT = ''MintX'',
          tasks = [AwaitRugCheck ''MintX'', AwaitMint ''sig2''], buyCalls = []\<rparr>)
   \<and> settle 1
        \<lparr>activeTransactions = 2, CURRENT_MINT = ''MintX'',
         tasks = [AwaitRugCheck ''MintX'', Returned DuplicateMint], buyCalls = []\<rparr>
      = \<lparr>activeTransactions = 1, CURRENT_MINT = ''MintX'',
         tasks = [AwaitRugCheck ''MintX'', Finalized], buyCalls = []\<rparr>
   \<and> processGrpcMint exampleConfig ''MintX''
        \<lparr>activeTransactions = 0, CURRENT_MINT = ''MintX'',
         tasks = [AwaitRugCheck ''MintX''], buyCalls = []\<rparr>
      = \<lparr>activeTransactions = 0, CURRENT_MINT = ''MintX'',
         tasks = [AwaitRugCheck ''MintX'', Returned DuplicateMint], buyCalls = []\<rparr>
   \<and> CURRENT_MINT (processGrpcMint exampleConfig ''MintY'' initialState) = ''MintY''
   \<and> resumeTask exampleConfig (AwaitMint ''sig1'') (FromSignature (Inr (Some ''MintY'')))
        initialState
      = wssChecks exampleConfig ''MintY'' (initialState\<lparr>CURRENT_MINT := ''MintY''\<rparr>)"
proof -
  let ?pd = "\<lparr>has_result = False, has_error = False,
    logs = Some [''Program log: initialize2: InitializeInstruction2''],
    signature = Some ''sig2''\<rparr>"
  let ?s1 = "\<lparr>activeTransactions = 1, CURRENT_MINT = ''MintX'',
    tasks = [AwaitRugCheck ''MintX''], buyCalls = []\<rparr>"
  let ?s2 = "\<lparr>activeTransactions = 2, CURRENT_MINT = ''MintX'',
    tasks = [AwaitRugCheck ''MintX'', AwaitMint ''sig2''], buyCalls = []\<rparr>"
  let ?s3 = "\<lparr>activeTransactions = 2, CURRENT_MINT = ''MintX'',
    tasks = [AwaitRugCheck ''MintX'', Returned DuplicateMint], buyCalls = []\<rparr>"
  let ?s4 = "\<lparr>activeTransactions = 0, CURRENT_MINT = ''MintX'',
    tasks = [AwaitRugCheck ''MintX''], buyCalls = []\<rparr>"
  have marker: "list_ex (\<lambda>log. list_ex (\<lambda>i. includes_str log i)
      (map instruction (filter pool_enabled (liquidity_pool exampleConfig))))
      [''Program log: initialize2: InitializeInstruction2'']"
    by code_simp
  have below: "activeTransactions ?s1 < MAX_CONCURRENT exampleConfig"
    and full: "MAX_CONCURRENT exampleConfig \<le> activeTransactions ?s2"
    by (simp_all add: MAX_CONCURRENT_def exampleConfig_def)
  have ne: "CURRENT_MINT initialState \<noteq> ''MintY''" "''MintY'' \<noteq> []" "''MintX'' \<noteq> []"
    "''sig2'' \<noteq> []"
    by (simp_all add: initialState_def)
  show ?thesis
    using marker below full ne
      admission_order [where cfg = exampleConfig and pd = ?pd and s = ?s1
        and ls = "[''Program log: initialize2: InitializeInstruction2'']" and sg = "''sig2''"]
      admission_order [where cfg = exampleConfig and payload = "newPoolMessage ''sig3''"
        and s = ?s2 and m = "''MintX''" and sg = "''sig2''"]
      admission_order [where cfg = exampleConfig and s = ?s3 and i = 1 and x = DuplicateMint]
      admission_order [where cfg = exampleConfig and s = ?s4 and m = "''MintX''"]
      admission_order [where cfg = exampleConfig and s = initialState
        and m = "''MintY''" and sg = "''sig1''"]
    by (simp add: newPoolMessage_def)
qed

text \<open>
  The claim's order fails on the socket transport: with \<open>MintX\<close> as the last-seen mint
  and one evaluation in flight, a second notification raises the counter from 1 to 2
  before its identifier is known, and the evaluation is dropped as a duplicate only
  afterwards; a notification whose lookup gives nothing has raised the counter as well.
\<close>

theorem admission_order_counterexample:
  "activeTransactions (wssRun exampleConfig [Message (newPoolMessage ''sig1''),
      Reply 0 (FromSignature (Inr (Some ''MintX'')))]) = 1
   \<and> CURRENT_MINT (wssRun exampleConfig [Message (newPoolMessage ''sig1''),
      Reply 0 (FromSignature (Inr (Some ''MintX'')))]) = ''MintX''
   \<and> activeTransactions (wssRun exampleConfig [Message (newPoolMessage ''sig1''),
      Reply 0 (FromSignature (Inr (Some ''MintX''))), Message (newPoolMessage ''sig2'')]) = 2
   \<and> tasks (wssRun exampleConfig [Message (newPoolMessage ''sig1''),
      Reply 0 (FromSignature (Inr (Some ''MintX''))), Message (newPoolMessage ''sig2''),
      Reply 1 (FromSignature (Inr (Some ''MintX'')))]) ! 1 = Returned DuplicateMint
   \<and> activeTransactions (wssRun exampleConfig [Message (newPoolMessage ''sig1'')]) = 1
   \<and> tasks (wssRun exampleConfig [Message (newPoolMessage ''sig1''),
      Reply 0 (FromSignature (Inr None))]) = [Returned NoMint]"
proof -
  have first: "wssRun exampleConfig [Message (newPoolMessage ''sig1'')] =
     \<lparr>activeTransactions = 1, CURRENT_MINT = [], tasks = [AwaitMint ''sig1''], buyCalls = []\<rparr>"
    by code_simp
  show ?thesis
    unfolding first ex_wss_dup_before ex_wss_dup_arrive ex_wss_dup_dropped ex_wss_unresolved
    by simp
qed

section \<open>Properties of the last-seen mint\<close>











section \<open>Properties of the decision modes\<close>





section \<open>Properties of the quick-rug-pull mode\<close>

lemma isQuickRugPull_iff:
  "isQuickRugPull mintAddress transactions getBlockTime now \<longleftrightarrow>
     trim mintAddress \<noteq> [] \<and>
     (\<exists>txs t. transactions = Inr txs \<and> txs \<noteq> [] \<and> getBlockTime (last txs) = Inr (Some t)
        \<and> t \<noteq> 0 \<and> 60 < now div 1000 - t)"
proof -
  have e: "trim [] = []" by (simp add: trim_def)
  have l: "\<And>txs :: int list. txs \<noteq> [] \<Longrightarrow> txs ! (length txs - Suc 0) = last txs"
    by (simp add: last_conv_nth)
  show ?thesis
    using e
    by (auto simp: isQuickRugPull_def Let_def l split: sum.splits option.splits)
qed

text \<open>
  Claim C1, as amended. In mode \<open>pumpdump\<close> on the stream transport, an admitted candidate
  is stored as the last-seen mint and the evaluation asks the quick-rug-pull heuristic,
  with nothing else changed. The heuristic reports true exactly when the identifier is not
  blank, the lookup returns at least one signature, the block time of the oldest one
  returned is known and not zero, and more than 60 seconds have passed since then; every
  error gives false. The evaluation is rejected, with the state as it was, exactly when
  the heuristic reports false; when it reports true the evaluation goes on to the
  purchase step, which calls \<^verbatim>\<open>buyToken\<close> when the provider is \<open>sniperoo\<close> and
  simulation is off.
\<close>

theorem pumpdump_rejects_when_heuristic_reports_false:
  assumes "CHECK_MODE cfg = ''pumpdump''"
  shows "grpcChecks cfg m s = (AwaitQuickRug m, s)
    \<and> (CURRENT_MINT s \<noteq> m \<longrightarrow>
         processGrpcMint cfg m s = s\<lparr>CURRENT_MINT := m, tasks := tasks s @ [AwaitQuickRug m]\<rparr>)
    \<and> resumeTask cfg (AwaitQuickRug m) (QuickRug False) s = (Returned DevCheckNotPassed, s)
    \<and> resumeTask cfg (AwaitQuickRug m) (QuickRug True) s = performSwap cfg m s
    \<and> (buy_provider cfg = ''sniperoo'' \<and> \<not> simulation_mode cfg \<longrightarrow>
         performSwap cfg m s = (AwaitBuy m, s\<lparr>buyCalls := buyCalls s @ [m]\<rparr>))
    \<and> (isQuickRugPull m transactions getBlockTime now \<longleftrightarrow>
         trim m \<noteq> [] \<and>
         (\<exists>txs t. transactions = Inr txs \<and> txs \<noteq> [] \<and> getBlockTime (last txs) = Inr (Some t)
            \<and> t \<noteq> 0 \<and> 60 < now div 1000 - t))"
proof -
  have c: "grpcChecks cfg m s = (AwaitQuickRug m, s)" for s
    using assms by (simp add: grpcChecks_def)
  have "CURRENT_MINT s \<noteq> m \<longrightarrow>
      processGrpcMint cfg m s = s\<lparr>CURRENT_MINT := m, tasks := tasks s @ [AwaitQuickRug m]\<rparr>"
    by (simp add: processGrpcMint_def c)
  then show ?thesis
    using c [of s] isQuickRugPull_iff [of m transactions getBlockTime now]
    by (simp add: performSwap_def)
qed

theorem pumpdump_rejects_when_heuristic_reports_false_witness:
  "CHECK_MODE (exampleConfig\<lparr>checks_mode := Some ''pumpdump''\<rparr>) = ''pumpdump''
   \<and> processGrpcMint (exampleConfig\<lparr>checks_mode := Some ''pumpdump''\<rparr>) exampleMint initialState
      = initialState\<lparr>CURRENT_MINT := exampleMint, tasks := [AwaitQuickRug exampleMint]\<rparr>
   \<and> \<not> isQuickRugPull exampleMint (Inr [300, 200, 100]) (blockTimeAt 1700000000) 1700000010000
   \<and> resumeTask (exampleConfig\<lparr>checks_mode := Some ''pumpdump''\<rparr>) (AwaitQuickRug exampleMint)
        (QuickRug False) initialState
      = (Returned DevCheckNotPassed, initialState)
   \<and> isQuickRugPull exampleMint (Inr [300, 200, 100]) (blockTimeAt 1700000000) 1700001000000
   \<and> resumeTask (exampleConfig\<lparr>checks_mode := Some ''pumpdump''\<rparr>) (AwaitQuickRug exampleMint)
        (QuickRug True) initialState
      = (AwaitBuy exampleMint, initialState\<lparr>buyCalls := [exampleMint]\<rparr>)"
proof -
  have mode: "CHECK_MODE (exampleConfig\<lparr>checks_mode := Some ''pumpdump''\<rparr>) = ''pumpdump''"
    by (simp add: CHECK_MODE_def)
  have fresh: "CURRENT_MINT initialState \<noteq> exampleMint"
    by (simp add: initialState_def exampleMint_def)
  have live: "buy_provider (exampleConfig\<lparr>checks_mode := Some ''pumpdump''\<rparr>) = ''sniperoo''
      \<and> \<not> simulation_mode (exampleConfig\<lparr>checks_mode := Some ''pumpdump''\<rparr>)"
    by (simp add: exampleConfig_def)
  have young: "\<not> isQuickRugPull exampleMint (Inr [300, 200, 100]) (blockTimeAt 1700000000)
      1700000010000"
    by code_simp
  have old: "isQuickRugPull exampleMint (Inr [300, 200, 100]) (blockTimeAt 1700000000)
      1700001000000"
    by code_simp
  show ?thesis
    using mode fresh live young old
      pumpdump_rejects_when_heuristic_reports_false [OF mode, where m = exampleMint
        and s = initialState and transactions = "Inr [300, 200, 100]"
        and getBlockTime = "blockTimeAt 1700000000" and now = 1700001000000]
    by (simp add: initialState_def)
qed

text \<open>
  The claim fails on the stream transport in both directions: for an asset whose oldest
  signature is 1000 s old the heuristic reports true and the evaluation goes on to call
  \<^verbatim>\<open>buyToken\<close>, and for one that is 10 s old the heuristic reports false and the
  evaluation is rejected. On the socket transport mode \<open>pumpdump\<close> asks no heuristic:
  the purchase follows the admission directly.
\<close>

theorem pumpdump_heuristic_counterexample:
  "isQuickRugPull exampleMint (Inr [300, 200, 100]) (blockTimeAt 1700000000) 1700001000000
   \<and> grpcRun (exampleConfig\<lparr>checks_mode := Some ''pumpdump''\<rparr>)
        [Data (createPoolUpdate exampleMint),
         GrpcReply 0 (QuickRug
           (isQuickRugPull exampleMint (Inr [300, 200, 100]) (blockTimeAt 1700000000)
              1700001000000))]
      = \<lparr>activeTransactions = 0, CURRENT_MINT = exampleMint, tasks = [AwaitBuy exampleMint],
         buyCalls = [exampleMint]\<rparr>
   \<and> \<not> isQuickRugPull exampleMint (Inr [300, 200, 100]) (blockTimeAt 1700000000) 1700000010000
   \<and> grpcRun (exampleConfig\<lparr>checks_mode := Some ''pumpdump''\<rparr>)
        [Data (createPoolUpdate exampleMint),
         GrpcReply 0 (QuickRug
           (isQuickRugPull exampleMint (Inr [300, 200, 100]) (blockTimeAt 1700000000)
              1700000010000))]
      = \<lparr>activeTransactions = 0, CURRENT_MINT = exampleMint,
         tasks = [Returned DevCheckNotPassed], buyCalls = []\<rparr>
   \<and> wssRun (exampleConfig\<lparr>checks_mode := Some ''pumpdump''\<rparr>)
        [Message (newPoolMessage ''sig1''), Reply 0 (FromSignature (Inr (Some exampleMint)))]
      = \<lparr>activeTransactions = 1, CURRENT_MINT = exampleMint, tasks = [AwaitBuy exampleMint],
         buyCalls = [exampleMint]\<rparr>"
  by code_simp

section \<open>Errors of the check collaborators\<close>

text \<open>
  What an error of a check collaborator does to an evaluation, on either transport: an
  error thrown by the signature lookup, the authority lookup or the rug check ends the
  evaluation as a rejected promise, with the state (and so the list of purchases) as it
  was; the quick-rug-pull heuristic turns its own errors into \<open>False\<close>, which the
  evaluation takes as a check that is not passed. On the socket transport the handlers
  of the promise then finalize the evaluation.
\<close>

theorem check_errors_end_the_evaluation:
  "resumeTask cfg (AwaitMint sg) (FromSignature (Inl e)) s = (Threw e, s)
   \<and> resumeTask cfg (AwaitAuthorities m) (Authorities (Inl e)) s = (Threw e, s)
   \<and> resumeTask cfg (AwaitRugCheck m) (RugCheck (Inl e)) s = (Threw e, s)
   \<and> getTokenAuthorities m (Inl e) = Inl (if trim m = [] then Error ''Invalid mint address'' else e)
   \<and> resumeTask cfg (AwaitQuickRug m) (QuickRug (isQuickRugPull m (Inl e) getBlockTime now)) s
      = (Returned DevCheckNotPassed, s)
   \<and> (i < length (tasks s) \<and> tasks s ! i = Threw e \<longrightarrow>
        settle i s = s\<lparr>activeTransactions := activeTransactions s - 1,
                       tasks := (tasks s)[i := Finalized]\<rparr>)"
proof -
  have "trim [] = []" by (simp add: trim_def)
  then show ?thesis
    by (auto simp: getTokenAuthorities_def isQuickRugPull_def settle_def)
qed

text \<open>
  Claim C4, on the code. In mode \<open>snipe\<close> the authority lookup throws again what it
  caught. On the stream transport the evaluation then ends as a rejected promise that no
  handler takes (no purchase is attempted); on the socket transport the same error is
  caught and the evaluation is finalized.
\<close>

theorem grpc_authority_error_is_unhandled:
  "getTokenAuthorities ''MintX'' (Inl (Error ''failed to find account''))
      = Inl (Error ''failed to find account'')
   \<and> grpcRun (exampleConfig\<lparr>checks_mode := Some ''snipe''\<rparr>)
        [Data (createPoolUpdate ''MintX''),
         GrpcReply 0 (Authorities
           (getTokenAuthorities ''MintX'' (Inl (Error ''failed to find account''))))]
      = \<lparr>activeTransactions = 0, CURRENT_MINT = ''MintX'',
         tasks = [Threw (Error ''failed to find account'')], buyCalls = []\<rparr>
   \<and> grpcUnhandledRejections (grpcRun (exampleConfig\<lparr>checks_mode := Some ''snipe''\<rparr>)
        [Data (createPoolUpdate ''MintX''),
         GrpcReply 0 (Authorities
           (getTokenAuthorities ''MintX'' (Inl (Error ''failed to find account''))))])
      = [Error ''failed to find account'']
   \<and> wssRun (exampleConfig\<lparr>checks_mode := Some ''snipe''\<rparr>)
        [Message (newPoolMessage ''sig1''), Reply 0 (FromSignature (Inr (Some ''MintX''))),
         Reply 0 (Authorities
           (getTokenAuthorities ''MintX'' (Inl (Error ''failed to find account'')))),
         Settle 0]
      = \<lparr>activeTransactions = 0, CURRENT_MINT = ''MintX'', tasks = [Finalized],
         buyCalls = []\<rparr>"
  by code_simp

section \<open>Properties of the stream listener\<close>

lemma handleGrpcStates_first_error:
  "handleGrpcStates (map OnData us @ OnError e # rest) = Some (Inl e)"
  by (induction us) simp_all

text \<open>
  The life of the stream listener. \<^verbatim>\<open>startGrpcListener\<close> opens the stream once and
  sends the subscribe request at most once: a stream error (the first event that is not
  data) rejects the promise of \<^verbatim>\<open>handleGrpcStates\<close>, the error is logged, the stream is
  ended and the listener returns. The listener keeps listening only while nothing but data
  has arrived.
\<close>

theorem startGrpcListener_subscribes_once:
  "subscribeCalls (startGrpcListener subscribeError writeError evs) = 1
   \<and> requestsSent (startGrpcListener subscribeError writeError evs) \<le> 1
   \<and> handleGrpcStates (map OnData us @ OnError e # rest) = Some (Inl e)
   \<and> startGrpcListener None None (map OnData us @ OnError e # rest)
      = \<lparr>subscribeCalls = 1, requestsSent = 1, endCalls = 2, listener = ReturnedAfterError e\<rparr>
   \<and> (listener (startGrpcListener subscribeError writeError evs) = Listening
        \<longleftrightarrow> subscribeError = None \<and> writeError = None \<and> handleGrpcStates evs = None)
   \<and> (handleGrpcStates evs = None \<longleftrightarrow> (\<forall>ev \<in> set evs. \<exists>u. ev = OnData u))"
proof -
  have a: "subscribeCalls (startGrpcListener subscribeError writeError evs) = 1
      \<and> requestsSent (startGrpcListener subscribeError writeError evs) \<le> 1"
    by (simp add: startGrpcListener_def split: option.splits sum.splits)
  have b: "listener (startGrpcListener subscribeError writeError evs) = Listening
        \<longleftrightarrow> subscribeError = None \<and> writeError = None \<and> handleGrpcStates evs = None"
    by (auto simp: startGrpcListener_def split: option.splits sum.splits)
  have c: "handleGrpcStates evs = None \<longleftrightarrow> (\<forall>ev \<in> set evs. \<exists>u. ev = OnData u)"
    by (induction evs rule: handleGrpcStates.induct) simp_all
  show ?thesis
    using a b c by (simp add: startGrpcListener_def handleGrpcStates_first_error)
qed

theorem startGrpcListener_subscribes_once_witness:
  "listener (startGrpcListener None None
      [OnData (createPoolUpdate ''MintX''), OnData (createPoolUpdate ''MintY'')]) = Listening
   \<and> startGrpcListener None None
      [OnData (createPoolUpdate ''MintX''), OnError (Error ''14 UNAVAILABLE'')]
     = \<lparr>subscribeCalls = 1, requestsSent = 1, endCalls = 2,
        listener = ReturnedAfterError (Error ''14 UNAVAILABLE'')\<rparr>"
proof -
  have d: "handleGrpcStates
      [OnData (createPoolUpdate ''MintX''), OnData (createPoolUpdate ''MintY'')] = None"
    by simp
  show ?thesis
    using d
      startGrpcListener_subscribes_once [where subscribeError = None and writeError = None
        and evs = "[OnData (createPoolUpdate ''MintX''), OnData (createPoolUpdate ''MintY'')]"
        and us = "[createPoolUpdate ''MintX'']" and e = "Error ''14 UNAVAILABLE''"
        and rest = "[]"]
    by simp
qed

text \<open>
  Claim C7, on the code. After a stream error the listener is no longer listening: the
  stream was opened once and subscribed once, and nothing connects again.
\<close>

theorem grpc_stream_error_ends_listening:
  "listener (startGrpcListener None None
      [OnData (createPoolUpdate ''MintX''), OnError (Error ''14 UNAVAILABLE''),
       OnData (createPoolUpdate ''MintY'')]) \<noteq> Listening
   \<and> subscribeCalls (startGrpcListener None None
      [OnData (createPoolUpdate ''MintX''), OnError (Error ''14 UNAVAILABLE''),
       OnData (createPoolUpdate ''MintY'')]) = 1
   \<and> requestsSent (startGrpcListener None None
      [OnData (createPoolUpdate ''MintX''), OnError (Error ''14 UNAVAILABLE''),
       OnData (createPoolUpdate ''MintY'')]) = 1"
  by (simp add: startGrpcListener_def)

end
